theory Spec2Isabelle
  imports Main "HOL-Library.Word"
begin

unbundle bit_operations_syntax

section \<open>IRelayControl.ino: data model\<close>

text \<open>
  The sketch drives four relays from learned infrared codes. Its globals are the arrays
  \<open>hex_codes\<close> and \<open>relay_states\<close>; everything else it touches is a device: the EEPROM
  (byte addressed), the output latches of the pins, the decoder of the IR receiver, the
  configuration button and the serial port. The devices are fields of the state. The
  decoder and the button are scripts of what successive polls return; every call
  that acts on a device is appended to \<open>trace\<close> in program order.
\<close>

type_synonym u8 = "8 word"
type_synonym u32 = "32 word"

datatype level = LOW | HIGH

datatype pin_mode = OUTPUT | INPUT_PULLUP

datatype event =
    Serial_begin nat
  | IrReceiver_begin nat
  | Pin_mode nat pin_mode
  | Serial_print string
  | Serial_print_num nat
  | Serial_println string
  | Serial_println_hex u32
  | Digital_write nat level
  | Delay nat
  | Eeprom_update nat u8
  | Eeprom_put nat "u32 list"
  | IrReceiver_resume

record state =
  hex_codes :: "u32 list"
  relay_states :: "bool list"
  eeprom :: "nat \<Rightarrow> u8"
  pins :: "nat \<Rightarrow> level"
  ir_in :: "u32 option list"
  button_in :: "level list"
  trace :: "event list"

subsection \<open>Constants\<close>

definition CONFIG_BUTTON :: nat where
  "CONFIG_BUTTON = 6"

definition IR_RECEIVE_PIN :: nat where
  "IR_RECEIVE_PIN = 5"

definition RELAY_STATE_ADDR :: nat where
  "RELAY_STATE_ADDR = 16"

definition CONFIG_IR_CODE :: u32 where
  "CONFIG_IR_CODE = 0xE51A7F80"

definition RELAY_PINS :: "nat list" where
  "RELAY_PINS = [8, 9, 10, 11]"

definition NUM_RELAYS :: nat where
  "NUM_RELAYS = length RELAY_PINS"

text \<open>
  \<open>LED_BUILTIN\<close> comes from the board's core, not from the sketch: it is pin 13 on the
  Uno and Nano boards the README names.
\<close>

definition LED_BUILTIN :: nat where
  "LED_BUILTIN = 13"

subsection \<open>Devices\<close>

definition emit :: "event \<Rightarrow> state \<Rightarrow> state" where
  "emit e s = s\<lparr>trace := trace s @ [e]\<rparr>"

definition pinMode :: "nat \<Rightarrow> pin_mode \<Rightarrow> state \<Rightarrow> state" where
  "pinMode p m s = emit (Pin_mode p m) s"

text \<open>\<open>digitalWrite\<close> sets the output latch of the pin; \<open>digitalRead\<close> of an output pin
  (the sketch reads \<open>LED_BUILTIN\<close> back) returns that latch.\<close>

definition digitalWrite :: "nat \<Rightarrow> level \<Rightarrow> state \<Rightarrow> state" where
  "digitalWrite p l s = emit (Digital_write p l) (s\<lparr>pins := (pins s)(p := l)\<rparr>)"

definition digitalRead :: "nat \<Rightarrow> state \<Rightarrow> level" where
  "digitalRead p s = pins s p"

text \<open>C's \<open>!\<close> on a level: \<open>!HIGH\<close> is 0, \<open>!LOW\<close> is 1.\<close>

fun lnot :: "level \<Rightarrow> level" where
  "lnot LOW = HIGH"
| "lnot HIGH = LOW"

text \<open>Reading the configuration button takes the next level of its script; once the
  script is used up the line stays at its pulled-up idle level.\<close>

definition digitalRead_button :: "state \<Rightarrow> level \<times> state" where
  "digitalRead_button s =
     (case button_in s of
        [] \<Rightarrow> (HIGH, s)
      | l # ls \<Rightarrow> (l, s\<lparr>button_in := ls\<rparr>))"

definition delay :: "nat \<Rightarrow> state \<Rightarrow> state" where
  "delay ms s = emit (Delay ms) s"

text \<open>\<open>IrReceiver.decode()\<close> together with the read of \<open>decodedIRData.decodedRawData\<close>:
  \<open>None\<close> when nothing was decoded. After the script the decoder reports nothing.\<close>

definition IrReceiver_decode :: "state \<Rightarrow> u32 option \<times> state" where
  "IrReceiver_decode s =
     (case ir_in s of
        [] \<Rightarrow> (None, s)
      | r # rs \<Rightarrow> (r, s\<lparr>ir_in := rs\<rparr>))"

subsection \<open>EEPROM\<close>

definition EEPROM_read :: "nat \<Rightarrow> state \<Rightarrow> u8" where
  "EEPROM_read a s = eeprom s a"

text \<open>\<open>EEPROM.update\<close> writes the cell only when the value differs.\<close>

definition EEPROM_update :: "nat \<Rightarrow> u8 \<Rightarrow> state \<Rightarrow> state" where
  "EEPROM_update a v s =
     emit (Eeprom_update a v)
       (if eeprom s a = v then s else s\<lparr>eeprom := (eeprom s)(a := v)\<rparr>)"

text \<open>A \<open>uint32_t\<close> lies in the EEPROM as four bytes, lowest byte first.\<close>

definition le_bytes :: "u32 \<Rightarrow> u8 list" where
  "le_bytes w = [ucast w, ucast (drop_bit 8 w), ucast (drop_bit 16 w), ucast (drop_bit 24 w)]"

definition le_word :: "u8 \<Rightarrow> u8 \<Rightarrow> u8 \<Rightarrow> u8 \<Rightarrow> u32" where
  "le_word b0 b1 b2 b3 =
     ucast b0 OR push_bit 8 (ucast b1) OR push_bit 16 (ucast b2) OR push_bit 24 (ucast b3)"

text \<open>\<open>EEPROM.get(a, hex_codes)\<close> and \<open>EEPROM.put(a, hex_codes)\<close> move the whole array,
  \<open>sizeof(hex_codes)\<close> bytes from address \<open>a\<close>.\<close>

definition EEPROM_get :: "nat \<Rightarrow> state \<Rightarrow> u32 list" where
  "EEPROM_get a s =
     map (\<lambda>i. le_word (eeprom s (a + 4 * i)) (eeprom s (a + 4 * i + 1))
                       (eeprom s (a + 4 * i + 2)) (eeprom s (a + 4 * i + 3)))
         [0..<NUM_RELAYS]"

definition EEPROM_put :: "nat \<Rightarrow> u32 list \<Rightarrow> state \<Rightarrow> state" where
  "EEPROM_put a codes s =
     emit (Eeprom_put a codes)
       (s\<lparr>eeprom := (\<lambda>x. if a \<le> x \<and> x < a + 4 * length codes
                             then le_bytes (codes ! ((x - a) div 4)) ! ((x - a) mod 4)
                             else eeprom s x)\<rparr>)"

section \<open>The sketch\<close>

subsection \<open>toggleRelay\<close>

definition relay_level :: "bool \<Rightarrow> level" where
  "relay_level b = (if b then LOW else HIGH)"

definition relay_text :: "bool \<Rightarrow> string" where
  "relay_text b = (if b then '' ON'' else '' OFF'')"

definition toggleRelay :: "nat \<Rightarrow> state \<Rightarrow> state" where
  "toggleRelay index s =
     (let s = s\<lparr>relay_states := (relay_states s)[index := \<not> relay_states s ! index]\<rparr>;
          s = digitalWrite (RELAY_PINS ! index) (relay_level (relay_states s ! index)) s;
          s = EEPROM_update (RELAY_STATE_ADDR + index) (of_bool (relay_states s ! index)) s;
          s = emit (Serial_print ''Relay '') s;
          s = emit (Serial_print_num index) s
      in emit (Serial_println (relay_text (relay_states s ! index))) s)"

subsection \<open>enterConfigMode\<close>

text \<open>The scan for a duplicate among the first \<open>codes_stored\<close> slots.\<close>

function enterConfigMode_duplicate :: "nat \<Rightarrow> nat \<Rightarrow> u32 \<Rightarrow> state \<Rightarrow> bool" where
  "enterConfigMode_duplicate i codes_stored ir_code s =
     (if i < codes_stored
      then (if hex_codes s ! i = ir_code then True
            else enterConfigMode_duplicate (i + 1) codes_stored ir_code s)
      else False)"
  by pat_completeness auto
termination
  by (relation "measure (\<lambda>(i, codes_stored, ir_code, s). codes_stored - i)") auto

text \<open>The error cue: three rapid blinks.\<close>

function enterConfigMode_blinks :: "nat \<Rightarrow> state \<Rightarrow> state" where
  "enterConfigMode_blinks i s =
     (if i < 3
      then (let s = digitalWrite LED_BUILTIN HIGH s;
                s = delay 100 s;
                s = digitalWrite LED_BUILTIN LOW s;
                s = delay 100 s
            in enterConfigMode_blinks (i + 1) s)
      else s)"
  by pat_completeness auto
termination
  by (relation "measure (\<lambda>(i, s). 3 - i)") auto

declare enterConfigMode_duplicate.simps [simp del]
declare enterConfigMode_blinks.simps [simp del]

text \<open>The branch taken when the decoder delivered \<open>ir_code\<close>, up to and with
  \<open>IrReceiver.resume()\<close>.\<close>

definition enterConfigMode_code :: "u32 \<Rightarrow> nat \<Rightarrow> state \<Rightarrow> nat \<times> state" where
  "enterConfigMode_code ir_code codes_stored s =
     (let (codes_stored, s) =
        (if ir_code \<noteq> 0 \<and> ir_code \<noteq> CONFIG_IR_CODE
         then (if \<not> enterConfigMode_duplicate 0 codes_stored ir_code s
               then (let s = s\<lparr>hex_codes := (hex_codes s)[codes_stored := ir_code]\<rparr>;
                         s = emit (Serial_print ''Stored code '') s;
                         s = emit (Serial_print_num codes_stored) s;
                         s = emit (Serial_print '': '') s;
                         s = emit (Serial_println_hex ir_code) s;
                         s = digitalWrite LED_BUILTIN HIGH s;
                         s = delay 100 s;
                         s = digitalWrite LED_BUILTIN LOW s
                     in (codes_stored + 1, s))
               else (let s = emit (Serial_println ''Duplicate!'') s
                     in (codes_stored, enterConfigMode_blinks 0 s)))
         else (codes_stored, s))
      in (codes_stored, emit IrReceiver_resume s))"

text \<open>One pass through the body of the \<open>while\<close> loop.\<close>

definition enterConfigMode_body :: "nat \<Rightarrow> state \<Rightarrow> nat \<times> state" where
  "enterConfigMode_body codes_stored s =
     (let s = digitalWrite LED_BUILTIN (lnot (digitalRead LED_BUILTIN s)) s;
          s = delay 300 s;
          (r, s) = IrReceiver_decode s
      in case r of
           None \<Rightarrow> (codes_stored, s)
         | Some ir_code \<Rightarrow> enterConfigMode_code ir_code codes_stored s)"

lemma ir_in_enterConfigMode_blinks: "ir_in (enterConfigMode_blinks i s) = ir_in s"
proof (induction i s rule: enterConfigMode_blinks.induct)
  case (1 i s)
  show ?case
  proof (cases "i < 3")
    case True
    with 1 show ?thesis
      by (subst enterConfigMode_blinks.simps)
         (simp add: Let_def digitalWrite_def delay_def emit_def)
  next
    case False
    then show ?thesis
      by (subst enterConfigMode_blinks.simps) simp
  qed
qed

lemma ir_in_enterConfigMode_code:
  "ir_in (snd (enterConfigMode_code c k s)) = ir_in s"
  by (simp add: enterConfigMode_code_def Let_def digitalWrite_def delay_def emit_def
      ir_in_enterConfigMode_blinks)

lemma ir_in_enterConfigMode_body:
  "ir_in (snd (enterConfigMode_body k s)) = tl (ir_in s)"
  by (simp add: enterConfigMode_body_def Let_def IrReceiver_decode_def digitalWrite_def
      delay_def emit_def ir_in_enterConfigMode_code split: list.splits option.splits)

text \<open>
  The \<open>while (codes_stored < NUM_RELAYS)\<close> loop. It leaves only when all slots are
  filled. When the decoder's script is used up before that, the decoder reports nothing
  for ever and the loop never returns: the result is \<open>None\<close>.
\<close>

function enterConfigMode_while :: "nat \<Rightarrow> state \<Rightarrow> (nat \<times> state) option" where
  "enterConfigMode_while codes_stored s =
     (if codes_stored < NUM_RELAYS
      then (if ir_in s = [] then None
            else enterConfigMode_while (fst (enterConfigMode_body codes_stored s))
                                       (snd (enterConfigMode_body codes_stored s)))
      else Some (codes_stored, s))"
  by pat_completeness auto
termination
  by (relation "measure (\<lambda>(codes_stored, s). length (ir_in s))")
     (auto simp: ir_in_enterConfigMode_body case_prod_beta)

declare enterConfigMode_while.simps [simp del]

text \<open>What \<open>enterConfigMode\<close> does before the loop (the entry cue and the
  \<open>memset\<close> of \<open>hex_codes\<close>) and after it (the save and the steady LED).\<close>

definition enterConfigMode_entry :: "state \<Rightarrow> state" where
  "enterConfigMode_entry s =
     (let s = emit (Serial_println ''Entering Config Mode'') s;
          s = digitalWrite LED_BUILTIN HIGH s;
          s = delay 1000 s;
          s = digitalWrite LED_BUILTIN LOW s
      in s\<lparr>hex_codes := replicate NUM_RELAYS 0\<rparr>)"

definition enterConfigMode_exit :: "state \<Rightarrow> state" where
  "enterConfigMode_exit s =
     (let s = EEPROM_put 0 (hex_codes s) s;
          s = emit (Serial_println ''Configuration Saved'') s
      in digitalWrite LED_BUILTIN HIGH s)"

definition enterConfigMode :: "state \<Rightarrow> state option" where
  "enterConfigMode s =
     (case enterConfigMode_while 0 (enterConfigMode_entry s) of
        None \<Rightarrow> None
      | Some (codes_stored, s) \<Rightarrow> Some (enterConfigMode_exit s))"

text \<open>The loop cut off after \<open>n\<close> passes: the state in which the \<open>n\<close>-th pass ends, or
  the one in which the loop was left before that.\<close>

fun enterConfigMode_passes :: "nat \<Rightarrow> nat \<Rightarrow> state \<Rightarrow> nat \<times> state" where
  "enterConfigMode_passes 0 codes_stored s = (codes_stored, s)"
| "enterConfigMode_passes (Suc n) codes_stored s =
     (if codes_stored < NUM_RELAYS
      then enterConfigMode_passes n (fst (enterConfigMode_body codes_stored s))
                                    (snd (enterConfigMode_body codes_stored s))
      else (codes_stored, s))"

subsection \<open>loop\<close>

text \<open>The scan of the learned codes: the first slot that holds the code toggles its
  relay and ends the scan.\<close>

function loop_scan :: "nat \<Rightarrow> u32 \<Rightarrow> state \<Rightarrow> state" where
  "loop_scan i ir_code s =
     (if i < NUM_RELAYS
      then (if ir_code = hex_codes s ! i then toggleRelay i s
            else loop_scan (i + 1) ir_code s)
      else s)"
  by pat_completeness auto
termination
  by (relation "measure (\<lambda>(i, ir_code, s). NUM_RELAYS - i)") auto

declare loop_scan.simps [simp del]

text \<open>The body of \<open>if (IrReceiver.decode())\<close>, for the decoded \<open>ir_code\<close>.\<close>

definition loop_ir :: "u32 \<Rightarrow> state \<Rightarrow> state option" where
  "loop_ir ir_code s =
     (let s = emit (Serial_print ''IR Received: '') s;
          s = emit (Serial_println_hex ir_code) s
      in map_option (emit IrReceiver_resume)
           (if ir_code = CONFIG_IR_CODE
            then enterConfigMode (emit (Serial_println ''IR Config Trigger'') s)
            else Some (loop_scan 0 ir_code s)))"

text \<open>The debounced check of the configuration button.\<close>

definition loop_button :: "state \<Rightarrow> state option" where
  "loop_button s =
     (let (b, s) = digitalRead_button s
      in if b = LOW
         then (let s = delay 50 s;
                   (b, s) = digitalRead_button s
               in if b = LOW then enterConfigMode s else Some s)
         else Some s)"

definition loop :: "state \<Rightarrow> state option" where
  "loop s =
     (case loop_button s of
        None \<Rightarrow> None
      | Some s \<Rightarrow>
          (let (r, s) = IrReceiver_decode s
           in case r of
                None \<Rightarrow> Some s
              | Some ir_code \<Rightarrow> loop_ir ir_code s))"

subsection \<open>setup\<close>

text \<open>The first loop of \<open>setup\<close>: each relay takes its saved state. A byte read from
  the EEPROM becomes a \<open>bool\<close>: any value but 0 is true.\<close>

function setup_relays :: "nat \<Rightarrow> state \<Rightarrow> state" where
  "setup_relays i s =
     (if i < NUM_RELAYS
      then (let s = pinMode (RELAY_PINS ! i) OUTPUT s;
                s = s\<lparr>relay_states :=
                       (relay_states s)[i := EEPROM_read (RELAY_STATE_ADDR + i) s \<noteq> 0]\<rparr>;
                s = digitalWrite (RELAY_PINS ! i) (relay_level (relay_states s ! i)) s;
                s = emit (Serial_print ''Relay '') s;
                s = emit (Serial_print_num i) s;
                s = emit (Serial_println (relay_text (relay_states s ! i))) s
            in setup_relays (i + 1) s)
      else s)"
  by pat_completeness auto
termination
  by (relation "measure (\<lambda>(i, s). NUM_RELAYS - i)") auto

declare setup_relays.simps [simp del]

function setup_codes :: "nat \<Rightarrow> state \<Rightarrow> state" where
  "setup_codes i s =
     (if i < NUM_RELAYS
      then (let s = emit (Serial_print ''Relay '') s;
                s = emit (Serial_print_num i) s;
                s = emit (Serial_print '' code: '') s;
                s = emit (Serial_println_hex (hex_codes s ! i)) s
            in setup_codes (i + 1) s)
      else s)"
  by pat_completeness auto
termination
  by (relation "measure (\<lambda>(i, s). NUM_RELAYS - i)") auto

declare setup_codes.simps [simp del]

definition setup_fn :: "state \<Rightarrow> state" where
  "setup_fn s =
     (let s = emit (Serial_begin 115200) s;
          s = emit (IrReceiver_begin IR_RECEIVE_PIN) s;
          s = pinMode LED_BUILTIN OUTPUT s;
          s = pinMode CONFIG_BUTTON INPUT_PULLUP s;
          s = setup_relays 0 s;
          s = s\<lparr>hex_codes := EEPROM_get 0 s\<rparr>
      in setup_codes 0 s)"

text \<open>The state at power-on: C zero-initialises the global arrays; the EEPROM, the
  latches and the scripts of the inputs are what the world provides.\<close>

definition power_on :: "(nat \<Rightarrow> u8) \<Rightarrow> (nat \<Rightarrow> level) \<Rightarrow> u32 option list \<Rightarrow> level list \<Rightarrow> state" where
  "power_on e p irs btns =
     \<lparr>hex_codes = replicate NUM_RELAYS 0, relay_states = replicate NUM_RELAYS False,
      eeprom = e, pins = p, ir_in = irs, button_in = btns, trace = []\<rparr>"

section \<open>Specification predicates\<close>

text \<open>The writes to the EEPROM, and the writes to the line of a relay, in a trace.\<close>

definition is_store_write :: "event \<Rightarrow> bool" where
  "is_store_write e = (case e of Eeprom_update a v \<Rightarrow> True | Eeprom_put a cs \<Rightarrow> True | _ \<Rightarrow> False)"

definition is_relay_write :: "event \<Rightarrow> bool" where
  "is_relay_write e = (case e of Digital_write p l \<Rightarrow> p \<in> set RELAY_PINS | _ \<Rightarrow> False)"

text \<open>What Configuring leaves alone between two of its states: the relays, the EEPROM,
  the button, every line but the LED.\<close>

definition config_frame :: "state \<Rightarrow> state \<Rightarrow> bool" where
  "config_frame s s' \<longleftrightarrow>
     relay_states s' = relay_states s \<and> eeprom s' = eeprom s \<and> button_in s' = button_in s \<and>
     (\<forall>p. p \<noteq> LED_BUILTIN \<longrightarrow> pins s' p = pins s p) \<and>
     filter is_store_write (trace s') = filter is_store_write (trace s) \<and>
     filter is_relay_write (trace s') = filter is_relay_write (trace s)"

text \<open>A code that Configuring accepts for a slot, and the invariant of its loop: the
  first \<open>k\<close> slots hold pairwise different learnable codes, the others still 0.\<close>

definition learnable :: "u32 \<Rightarrow> bool" where
  "learnable c \<longleftrightarrow> c \<noteq> 0 \<and> c \<noteq> CONFIG_IR_CODE"

definition learn_inv :: "nat \<Rightarrow> state \<Rightarrow> bool" where
  "learn_inv k s \<longleftrightarrow>
     k \<le> NUM_RELAYS \<and> length (hex_codes s) = NUM_RELAYS \<and>
     distinct (take k (hex_codes s)) \<and> list_all learnable (take k (hex_codes s)) \<and>
     drop k (hex_codes s) = replicate (NUM_RELAYS - k) 0"

text \<open>The learnable codes among what the decoder will deliver, in order.\<close>

definition learnable_codes :: "u32 option list \<Rightarrow> u32 list" where
  "learnable_codes polls = [c. Some c \<leftarrow> polls, learnable c]"

text \<open>A board that has just been switched on, with a blank store and nothing to receive;
  the examples below give it a script.\<close>

definition blank_board :: state where
  "blank_board = power_on (\<lambda>a. 0) (\<lambda>p. LOW) [] []"

text \<open>A script for Configuring with rejected codes between the learnable ones.\<close>

definition noisy_board :: state where
  "noisy_board =
     blank_board\<lparr>ir_in := [Some 0x11, Some 0, None, Some 0x22, Some 0x11,
                              Some CONFIG_IR_CODE, Some 0x33, Some 0x44]\<rparr>"

text \<open>A script for Configuring in which the code 0x22 comes twice.\<close>

definition twice_board :: state where
  "twice_board =
     blank_board\<lparr>ir_in := [Some 0x11, Some 0, Some 0x22, None, Some 0x33, Some 0x22, Some 0x44]\<rparr>"

text \<open>The reports on the serial port.\<close>

definition is_report :: "event \<Rightarrow> bool" where
  "is_report e =
     (case e of Serial_print t \<Rightarrow> True | Serial_print_num n \<Rightarrow> True
      | Serial_println t \<Rightarrow> True | Serial_println_hex c \<Rightarrow> True | _ \<Rightarrow> False)"

text \<open>A board whose learned codes were not made by Configuring: slot 0 holds the
  Trigger Code, as an EEPROM written by something else can give it to \<open>setup\<close>.\<close>

definition trigger_board :: state where
  "trigger_board =
     blank_board\<lparr>hex_codes := [0xE51A7F80, 0x22, 0x33, 0x44],
                 ir_in := [Some 0x11, Some 0x22, Some 0x33, Some 0x44]\<rparr>"

text \<open>A board whose slots 1 and 2 hold the same code.\<close>

definition double_board :: state where
  "double_board = blank_board\<lparr>hex_codes := [5, 7, 7, 9]\<rparr>"

text \<open>The active-low policy: the line of every channel is at the level of its state.\<close>

definition active_low :: "state \<Rightarrow> bool" where
  "active_low s \<longleftrightarrow> (\<forall>i<NUM_RELAYS. pins s (RELAY_PINS ! i) = relay_level (relay_states s ! i))"

text \<open>A board with an erased EEPROM (every byte 0xFF), and one whose saved states are
  1, 0, 1, 0.\<close>

definition erased_board :: state where
  "erased_board = power_on (\<lambda>a. 0xFF) (\<lambda>p. LOW) [] []"

definition saved_board :: state where
  "saved_board = power_on ((\<lambda>a. 0)(16 := 1, 18 := 1)) (\<lambda>p. HIGH) [] []"

section \<open>Auxiliary facts\<close>

lemmas prims = emit_def digitalWrite_def delay_def pinMode_def digitalRead_def

lemma le_word_le_bytes: "le_word (le_bytes w ! 0) (le_bytes w ! 1) (le_bytes w ! 2) (le_bytes w ! 3) = w"
  unfolding le_word_def le_bytes_def
  apply simp
  apply (rule bit_word_eqI)
  apply (auto simp add: bit_simps)
  subgoal for n by (cases "n < 24") simp_all
  done

lemma blinks0: "enterConfigMode_blinks 0 s =
   s\<lparr>pins := (pins s)(LED_BUILTIN := LOW),
     trace := trace s @ [Digital_write LED_BUILTIN HIGH, Delay 100, Digital_write LED_BUILTIN LOW, Delay 100,
       Digital_write LED_BUILTIN HIGH, Delay 100, Digital_write LED_BUILTIN LOW, Delay 100,
       Digital_write LED_BUILTIN HIGH, Delay 100, Digital_write LED_BUILTIN LOW, Delay 100]\<rparr>"
  apply (subst enterConfigMode_blinks.simps, simp add: Let_def prims)
  apply (subst enterConfigMode_blinks.simps, simp add: Let_def prims)
  apply (subst enterConfigMode_blinks.simps, simp add: Let_def prims)
  apply (subst enterConfigMode_blinks.simps, simp add: Let_def prims)
  done

lemma dup_iff: "k \<le> length (hex_codes s) \<Longrightarrow>
   enterConfigMode_duplicate i k c s = (c \<in> set (drop i (take k (hex_codes s))))"
proof (induction i k c s rule: enterConfigMode_duplicate.induct)
  case (1 i k c s)
  show ?case
  proof (cases "i < k")
    case True
    then have d: "drop i (take k (hex_codes s)) = hex_codes s ! i # drop (Suc i) (take k (hex_codes s))"
      using 1(2) by (simp add: Cons_nth_drop_Suc [symmetric])
    show ?thesis using True 1 d
      by (subst enterConfigMode_duplicate.simps) auto
  next
    case False
    then show ?thesis using 1(2)
      by (subst enterConfigMode_duplicate.simps) simp
  qed
qed


lemma while_step: "k < NUM_RELAYS \<Longrightarrow> ir_in s \<noteq> [] \<Longrightarrow>
   enterConfigMode_while k s = enterConfigMode_while (fst (enterConfigMode_body k s)) (snd (enterConfigMode_body k s))"
  by (subst enterConfigMode_while.simps) simp

lemma while_done: "\<not> k < NUM_RELAYS \<Longrightarrow> enterConfigMode_while k s = Some (k, s)"
  by (subst enterConfigMode_while.simps) simp

lemma while_stuck: "k < NUM_RELAYS \<Longrightarrow> ir_in s = [] \<Longrightarrow> enterConfigMode_while k s = None"
  by (subst enterConfigMode_while.simps) simp

lemma code_closed:
  "k \<le> length (hex_codes s) \<Longrightarrow> enterConfigMode_code c k s =
    (if c \<noteq> 0 \<and> c \<noteq> CONFIG_IR_CODE then
       if c \<notin> set (take k (hex_codes s)) then
         (k + 1, s\<lparr>hex_codes := (hex_codes s)[k := c], pins := (pins s)(LED_BUILTIN := LOW),
            trace := trace s @ [Serial_print ''Stored code '', Serial_print_num k, Serial_print '': '',
              Serial_println_hex c, Digital_write LED_BUILTIN HIGH, Delay 100, Digital_write LED_BUILTIN LOW,
              IrReceiver_resume]\<rparr>)
       else (k, s\<lparr>pins := (pins s)(LED_BUILTIN := LOW),
            trace := trace s @ [Serial_println ''Duplicate!'',
               Digital_write LED_BUILTIN HIGH, Delay 100, Digital_write LED_BUILTIN LOW, Delay 100,
               Digital_write LED_BUILTIN HIGH, Delay 100, Digital_write LED_BUILTIN LOW, Delay 100,
               Digital_write LED_BUILTIN HIGH, Delay 100, Digital_write LED_BUILTIN LOW, Delay 100,
               IrReceiver_resume]\<rparr>)
     else (k, s\<lparr>trace := trace s @ [IrReceiver_resume]\<rparr>))"
  by (simp add: enterConfigMode_code_def Let_def prims blinks0 dup_iff)

lemma NUM_RELAYS_eq: "NUM_RELAYS = 4"
  by (simp add: NUM_RELAYS_def RELAY_PINS_def)

lemma body_closed:
  "enterConfigMode_body k s =
     (case ir_in s of
        [] \<Rightarrow> (k, s\<lparr>pins := (pins s)(LED_BUILTIN := lnot (pins s LED_BUILTIN)),
                     trace := trace s @ [Digital_write LED_BUILTIN (lnot (pins s LED_BUILTIN)), Delay 300]\<rparr>)
      | None # rs \<Rightarrow> (k, s\<lparr>pins := (pins s)(LED_BUILTIN := lnot (pins s LED_BUILTIN)),
                     trace := trace s @ [Digital_write LED_BUILTIN (lnot (pins s LED_BUILTIN)), Delay 300],
                     ir_in := rs\<rparr>)
      | Some c # rs \<Rightarrow> enterConfigMode_code c k
                   (s\<lparr>pins := (pins s)(LED_BUILTIN := lnot (pins s LED_BUILTIN)),
                     trace := trace s @ [Digital_write LED_BUILTIN (lnot (pins s LED_BUILTIN)), Delay 300],
                     ir_in := rs\<rparr>))"
  by (simp add: enterConfigMode_body_def Let_def prims IrReceiver_decode_def split: list.splits option.splits)

lemma config_frame_refl: "config_frame s s"
  by (simp add: config_frame_def)

lemma config_frame_trans: "config_frame s t \<Longrightarrow> config_frame t u \<Longrightarrow> config_frame s u"
  by (simp add: config_frame_def)

lemma LED_not_relay: "LED_BUILTIN \<notin> set RELAY_PINS"
  by (simp add: LED_BUILTIN_def RELAY_PINS_def)

lemma code_frame: "config_frame s (snd (enterConfigMode_code c k s))"
  by (simp add: config_frame_def enterConfigMode_code_def Let_def prims blinks0
      is_store_write_def is_relay_write_def LED_not_relay)

lemma body_frame: "config_frame s (snd (enterConfigMode_body k s))"
proof -
  have a: "config_frame s (s\<lparr>pins := (pins s)(LED_BUILTIN := l), trace := trace s @ [Digital_write LED_BUILTIN l, Delay 300], ir_in := rs\<rparr>)" for l rs
    by (simp add: config_frame_def is_store_write_def is_relay_write_def LED_not_relay)
  have b: "config_frame s (s\<lparr>pins := (pins s)(LED_BUILTIN := l), trace := trace s @ [Digital_write LED_BUILTIN l, Delay 300]\<rparr>)" for l
    by (simp add: config_frame_def is_store_write_def is_relay_write_def LED_not_relay)
  show ?thesis
    by (auto simp: body_closed split: list.splits option.splits intro: a b config_frame_trans [OF a code_frame])
qed

lemma entry_frame: "config_frame s (enterConfigMode_entry s)"
  by (simp add: config_frame_def enterConfigMode_entry_def Let_def prims
      is_store_write_def is_relay_write_def LED_not_relay)

lemma passes_frame: "config_frame s (snd (enterConfigMode_passes n k s))"
proof (induction n arbitrary: k s)
  case 0
  show ?case by (simp add: config_frame_refl)
next
  case (Suc n)
  show ?case
    using config_frame_trans [OF body_frame Suc.IH] by (simp add: config_frame_refl)
qed

lemma while_frame: "enterConfigMode_while k s = Some (k', s') \<Longrightarrow> config_frame s s'"
proof (induction k s rule: enterConfigMode_while.induct)
  case (1 k s)
  show ?case
  proof (cases "k < NUM_RELAYS")
    case False
    with 1(2) show ?thesis by (simp add: while_done config_frame_refl)
  next
    case True
    show ?thesis
    proof (cases "ir_in s = []")
      case True
      with \<open>k < NUM_RELAYS\<close> 1(2) show ?thesis by (simp add: while_stuck)
    next
      case False
      with \<open>k < NUM_RELAYS\<close> 1(2)
      have "enterConfigMode_while (fst (enterConfigMode_body k s)) (snd (enterConfigMode_body k s)) = Some (k', s')"
        by (simp add: while_step)
      from 1(1) [OF \<open>k < NUM_RELAYS\<close> False this] body_frame show ?thesis
        by (rule config_frame_trans [rotated])
    qed
  qed
qed

lemma entry_inv: "learn_inv 0 (enterConfigMode_entry s)"
  by (simp add: learn_inv_def enterConfigMode_entry_def Let_def prims)

lemma ir_in_entry: "ir_in (enterConfigMode_entry s) = ir_in s"
  by (simp add: enterConfigMode_entry_def Let_def prims)

lemma code_fst: "fst (enterConfigMode_code c k s) = k \<or> fst (enterConfigMode_code c k s) = k + 1"
  by (simp add: enterConfigMode_code_def Let_def)

lemma body_fst: "fst (enterConfigMode_body k s) = k \<or> fst (enterConfigMode_body k s) = k + 1"
  using code_fst by (simp add: body_closed split: list.splits option.splits)

lemma code_inv:
  assumes "learn_inv k s" "k < NUM_RELAYS"
  shows "learn_inv (fst (enterConfigMode_code c k s)) (snd (enterConfigMode_code c k s))"
proof -
  from assms have len: "k < length (hex_codes s)" and kl: "k \<le> length (hex_codes s)"
    by (simp_all add: learn_inv_def)
  have tk: "take (Suc k) ((hex_codes s)[k := c]) = take k (hex_codes s) @ [c]"
    using len by (simp add: take_Suc_conv_app_nth)
  have "drop (Suc k) (hex_codes s) = tl (drop k (hex_codes s))"
    by (simp add: drop_Suc tl_drop)
  also have "\<dots> = replicate (NUM_RELAYS - Suc k) 0"
    using assms by (simp add: learn_inv_def)
  finally have dk: "drop (Suc k) (hex_codes s) = replicate (NUM_RELAYS - Suc k) 0" .
  show ?thesis
    using assms tk dk by (simp add: code_closed [OF kl] learn_inv_def learnable_def)
qed

lemma body_inv:
  assumes "learn_inv k s" "k < NUM_RELAYS"
  shows "learn_inv (fst (enterConfigMode_body k s)) (snd (enterConfigMode_body k s))"
proof -
  have a: "learn_inv k (s\<lparr>pins := p, trace := t, ir_in := r\<rparr>)" for p t r
    using assms by (simp add: learn_inv_def)
  have b: "learn_inv k (s\<lparr>pins := p, trace := t\<rparr>)" for p t
    using assms by (simp add: learn_inv_def)
  show ?thesis
    using a b code_inv [OF a assms(2)]
    by (simp add: body_closed split: list.splits option.splits)
qed

lemma passes_inv: "learn_inv k s \<Longrightarrow>
   learn_inv (fst (enterConfigMode_passes n k s)) (snd (enterConfigMode_passes n k s))"
  by (induction n arbitrary: k s) (simp_all add: body_inv)

lemma passes_fst: "k \<le> fst (enterConfigMode_passes n k s)"
proof (induction n arbitrary: k s)
  case 0
  show ?case by simp
next
  case (Suc n)
  have "k \<le> fst (enterConfigMode_body k s)"
    using body_fst [of k s] by auto
  with Suc [of "fst (enterConfigMode_body k s)" "snd (enterConfigMode_body k s)"]
  show ?case by simp
qed

lemma passes_ir_in:
  "fst (enterConfigMode_passes n k s) < NUM_RELAYS \<Longrightarrow>
   ir_in (snd (enterConfigMode_passes n k s)) = drop n (ir_in s)"
proof (induction n arbitrary: k s)
  case 0
  show ?case by simp
next
  case (Suc n)
  have "k \<le> fst (enterConfigMode_passes (Suc n) k s)" by (rule passes_fst)
  with Suc.prems have k: "k < NUM_RELAYS" by simp
  with Suc.prems Suc.IH [of "fst (enterConfigMode_body k s)" "snd (enterConfigMode_body k s)"]
  show ?case by (simp add: ir_in_enterConfigMode_body drop_Suc)
qed

text \<open>A learnable code that the decoder delivers is in the filled part of the buffer
  after the pass, and what was there stays.\<close>

lemma code_learns:
  assumes "learn_inv k s" "k < NUM_RELAYS"
  shows "set (take k (hex_codes s)) \<subseteq>
           set (take (fst (enterConfigMode_code c k s)) (hex_codes (snd (enterConfigMode_code c k s))))
         \<and> (learnable c \<longrightarrow>
              c \<in> set (take (fst (enterConfigMode_code c k s)) (hex_codes (snd (enterConfigMode_code c k s)))))"
proof -
  from assms have len: "k < length (hex_codes s)" and kl: "k \<le> length (hex_codes s)"
    by (simp_all add: learn_inv_def)
  have tk: "take (Suc k) ((hex_codes s)[k := c]) = take k (hex_codes s) @ [c]"
    using len by (simp add: take_Suc_conv_app_nth)
  show ?thesis
    using tk by (auto simp add: code_closed [OF kl] learnable_def)
qed

lemma body_keeps:
  assumes "learn_inv k s" "k < NUM_RELAYS"
  shows "set (take k (hex_codes s)) \<subseteq>
           set (take (fst (enterConfigMode_body k s)) (hex_codes (snd (enterConfigMode_body k s))))"
proof -
  have a: "learn_inv k (s\<lparr>pins := p, trace := t, ir_in := r\<rparr>)" for p t r
    using assms by (simp add: learn_inv_def)
  show ?thesis
    using code_learns [OF a assms(2)]
    by (simp add: body_closed split: list.splits option.splits)
qed

lemma body_learns:
  assumes "learn_inv k s" "k < NUM_RELAYS" "ir_in s = Some c # rs" "learnable c"
  shows "c \<in> set (take (fst (enterConfigMode_body k s)) (hex_codes (snd (enterConfigMode_body k s))))"
proof -
  have a: "learn_inv k (s\<lparr>pins := p, trace := t, ir_in := r\<rparr>)" for p t r
    using assms by (simp add: learn_inv_def)
  show ?thesis
    using code_learns [OF a assms(2)] assms(3,4)
    by (simp add: body_closed)
qed

lemma passes_keeps:
  "learn_inv k s \<Longrightarrow> fst (enterConfigMode_passes n k s) < NUM_RELAYS \<Longrightarrow>
   set (take k (hex_codes s)) \<subseteq>
     set (take (fst (enterConfigMode_passes n k s)) (hex_codes (snd (enterConfigMode_passes n k s))))"
proof (induction n arbitrary: k s)
  case 0
  show ?case by simp
next
  case (Suc n)
  have "k \<le> fst (enterConfigMode_passes (Suc n) k s)" by (rule passes_fst)
  with Suc.prems have k: "k < NUM_RELAYS" by simp
  from Suc.IH [OF body_inv [OF Suc.prems(1) k]] Suc.prems(2) k body_keeps [OF Suc.prems(1) k]
  show ?case by auto
qed

lemma passes_learns:
  "learn_inv k s \<Longrightarrow> fst (enterConfigMode_passes n k s) < NUM_RELAYS \<Longrightarrow>
   Some c \<in> set (take n (ir_in s)) \<Longrightarrow> learnable c \<Longrightarrow>
   c \<in> set (take (fst (enterConfigMode_passes n k s)) (hex_codes (snd (enterConfigMode_passes n k s))))"
proof (induction n arbitrary: k s)
  case 0
  then show ?case by simp
next
  case (Suc n)
  have "k \<le> fst (enterConfigMode_passes (Suc n) k s)" by (rule passes_fst)
  with Suc.prems have k: "k < NUM_RELAYS" by simp
  let ?k = "fst (enterConfigMode_body k s)" and ?s = "snd (enterConfigMode_body k s)"
  have inv: "learn_inv ?k ?s" by (rule body_inv [OF Suc.prems(1) k])
  have run: "fst (enterConfigMode_passes n ?k ?s) < NUM_RELAYS"
    using Suc.prems(2) k by simp
  from Suc.prems(3) obtain r rs where rs: "ir_in s = r # rs"
    by (cases "ir_in s") auto
  show ?case
  proof (cases "r = Some c")
    case True
    with rs body_learns [OF Suc.prems(1) k _ Suc.prems(4)]
    have "c \<in> set (take ?k (hex_codes ?s))" by simp
    with passes_keeps [OF inv run] show ?thesis using k by auto
  next
    case False
    with Suc.prems(3) rs have "Some c \<in> set (take n (ir_in ?s))"
      by (simp add: ir_in_enterConfigMode_body)
    from Suc.IH [OF inv run this Suc.prems(4)] show ?thesis using k by simp
  qed
qed

lemma learnable_codes_simps:
  "learnable_codes [] = []"
  "learnable_codes (None # rs) = learnable_codes rs"
  "learnable_codes (Some c # rs) = (if learnable c then c # learnable_codes rs else learnable_codes rs)"
  by (simp_all add: learnable_codes_def)

lemma body_step:
  assumes "learn_inv k s" "k < NUM_RELAYS" "ir_in s = r # rs"
  shows "fst (enterConfigMode_body k s) =
           (case r of None \<Rightarrow> k
            | Some c \<Rightarrow> if learnable c \<and> c \<notin> set (take k (hex_codes s)) then k + 1 else k)"
    and "set (take (fst (enterConfigMode_body k s)) (hex_codes (snd (enterConfigMode_body k s)))) =
           (case r of None \<Rightarrow> set (take k (hex_codes s))
            | Some c \<Rightarrow> if learnable c then insert c (set (take k (hex_codes s)))
                        else set (take k (hex_codes s)))"
proof -
  from assms have len: "k < length (hex_codes s)" and kl: "k \<le> length (hex_codes s)"
    by (simp_all add: learn_inv_def)
  have tk: "take (Suc k) ((hex_codes s)[k := c]) = take k (hex_codes s) @ [c]" for c
    using len by (simp add: take_Suc_conv_app_nth)
  have kl': "k \<le> length (hex_codes (s\<lparr>pins := p, trace := t, ir_in := rs\<rparr>))" for p t
    using kl by simp
  show "fst (enterConfigMode_body k s) =
           (case r of None \<Rightarrow> k
            | Some c \<Rightarrow> if learnable c \<and> c \<notin> set (take k (hex_codes s)) then k + 1 else k)"
    using assms(3) by (simp add: body_closed code_closed [OF kl'] learnable_def split: option.splits)
  show "set (take (fst (enterConfigMode_body k s)) (hex_codes (snd (enterConfigMode_body k s)))) =
           (case r of None \<Rightarrow> set (take k (hex_codes s))
            | Some c \<Rightarrow> if learnable c then insert c (set (take k (hex_codes s)))
                        else set (take k (hex_codes s)))"
    using assms(3) tk by (auto simp add: body_closed code_closed [OF kl'] learnable_def split: option.splits)
qed

lemma while_terminates:
  "learn_inv k s \<Longrightarrow> ir_in s = polls \<Longrightarrow>
   NUM_RELAYS - k \<le> card (set (learnable_codes polls) - set (take k (hex_codes s))) \<Longrightarrow>
   \<exists>s'. enterConfigMode_while k s = Some (NUM_RELAYS, s')"
proof (induction polls arbitrary: k s)
  case Nil
  then have "k = NUM_RELAYS" by (simp add: learnable_codes_simps learn_inv_def)
  then show ?case by (simp add: while_done)
next
  case (Cons r rs)
  show ?case
  proof (cases "k < NUM_RELAYS")
    case False
    with Cons.prems(1) have "k = NUM_RELAYS" by (simp add: learn_inv_def)
    then show ?thesis by (simp add: while_done)
  next
    case True
    let ?k = "fst (enterConfigMode_body k s)" and ?s = "snd (enterConfigMode_body k s)"
    let ?B = "set (take k (hex_codes s))" and ?A = "set (learnable_codes rs)"
    have inv: "learn_inv ?k ?s" by (rule body_inv [OF Cons.prems(1) True])
    have ir: "ir_in ?s = rs" using Cons.prems(2) by (simp add: ir_in_enterConfigMode_body)
    note st = body_step [OF Cons.prems(1) True Cons.prems(2)]
    have "NUM_RELAYS - ?k \<le> card (?A - set (take ?k (hex_codes ?s)))"
    proof (cases r)
      case None
      with Cons.prems(3) st show ?thesis by (simp add: learnable_codes_simps)
    next
      case (Some c)
      show ?thesis
      proof (cases "learnable c")
        case False
        with Some Cons.prems(3) st show ?thesis by (simp add: learnable_codes_simps)
      next
        case lc: True
        show ?thesis
        proof (cases "c \<in> ?B")
          case True
          then have "insert c ?A - ?B = ?A - ?B" by auto
          with True lc Some Cons.prems(3) st show ?thesis
            by (simp add: learnable_codes_simps insert_absorb)
        next
          case False
          have "?A - insert c ?B = (insert c ?A - ?B) - {c}" by auto
          then have "card (?A - insert c ?B) = card (insert c ?A - ?B) - 1"
            using False by (simp add: card_Diff_singleton)
          with False lc Some Cons.prems(3) st show ?thesis
            by (simp add: learnable_codes_simps)
        qed
      qed
    qed
    from Cons.IH [OF inv ir this] show ?thesis
      using True Cons.prems(2) by (simp add: while_step)
  qed
qed

lemma while_passes:
  "enterConfigMode_while k s = Some r \<Longrightarrow> \<exists>n. enterConfigMode_passes n k s = r"
proof (induction k s rule: enterConfigMode_while.induct)
  case (1 k s)
  show ?case
  proof (cases "k < NUM_RELAYS")
    case False
    with 1(2) have "enterConfigMode_passes 0 k s = r" by (simp add: while_done)
    then show ?thesis ..
  next
    case True
    show ?thesis
    proof (cases "ir_in s = []")
      case True
      with \<open>k < NUM_RELAYS\<close> 1(2) show ?thesis by (simp add: while_stuck)
    next
      case False
      with \<open>k < NUM_RELAYS\<close> 1(2)
      have "enterConfigMode_while (fst (enterConfigMode_body k s)) (snd (enterConfigMode_body k s)) = Some r"
        by (simp add: while_step)
      from 1(1) [OF \<open>k < NUM_RELAYS\<close> False this] obtain n
        where "enterConfigMode_passes n (fst (enterConfigMode_body k s)) (snd (enterConfigMode_body k s)) = r" ..
      with \<open>k < NUM_RELAYS\<close> have "enterConfigMode_passes (Suc n) k s = r" by simp
      then show ?thesis ..
    qed
  qed
qed

lemma replicate_4: "replicate 4 x = [x, x, x, x]"
  by (simp add: eval_nat_numeral)

lemma power_on_blank:
  "blank_board = \<lparr>hex_codes = [0, 0, 0, 0], relay_states = [False, False, False, False],
      eeprom = \<lambda>a. 0, pins = \<lambda>p. LOW, ir_in = [], button_in = [], trace = []\<rparr>"
  by (simp add: blank_board_def power_on_def NUM_RELAYS_eq replicate_4)

section \<open>Properties of the sketch\<close>

subsection \<open>Configuring: rejected codes\<close>

text \<open>
  C8. During Configuring a decoded code that is zero or the Trigger Code is ignored: the
  pass of the loop that receives it leaves the filled-count and every slot of the buffer
  as they were, reports nothing and gives no error cue (the trace gains only the waiting
  blink of every pass and its delay), and resumes the decoder.
\<close>

theorem C8_zero_and_trigger_ignored:
  assumes "ir_in s = Some c # rs" and "c = 0 \<or> c = CONFIG_IR_CODE"
  shows "enterConfigMode_body codes_stored s =
           (codes_stored,
            s\<lparr>pins := (pins s)(LED_BUILTIN := lnot (pins s LED_BUILTIN)),
              trace := trace s @ [Digital_write LED_BUILTIN (lnot (pins s LED_BUILTIN)), Delay 300,
                                 IrReceiver_resume],
              ir_in := rs\<rparr>)"
  using assms by (auto simp add: body_closed enterConfigMode_code_def prims)

theorem C8_zero_and_trigger_ignored_witness:
  "ir_in (blank_board\<lparr>ir_in := [Some CONFIG_IR_CODE, Some 0]\<rparr>) = Some CONFIG_IR_CODE # [Some 0]
   \<and> (CONFIG_IR_CODE = 0 \<or> CONFIG_IR_CODE = CONFIG_IR_CODE)
   \<and> fst (enterConfigMode_body 2 (blank_board\<lparr>ir_in := [Some CONFIG_IR_CODE, Some 0]\<rparr>)) = 2
   \<and> hex_codes (snd (enterConfigMode_body 2 (blank_board\<lparr>ir_in := [Some CONFIG_IR_CODE, Some 0]\<rparr>)))
       = [0, 0, 0, 0]
   \<and> trace (snd (enterConfigMode_body 2 (blank_board\<lparr>ir_in := [Some CONFIG_IR_CODE, Some 0]\<rparr>)))
       = [Digital_write 13 HIGH, Delay 300, IrReceiver_resume]"
  using C8_zero_and_trigger_ignored
          [of "blank_board\<lparr>ir_in := [Some CONFIG_IR_CODE, Some 0]\<rparr>" CONFIG_IR_CODE "[Some 0]" 2]
  by (simp add: power_on_blank LED_BUILTIN_def)

lemma noisy_board_eq:
  "noisy_board = \<lparr>hex_codes = [0, 0, 0, 0], relay_states = [False, False, False, False],
      eeprom = \<lambda>a. 0, pins = \<lambda>p. LOW,
      ir_in = [Some 0x11, Some 0, None, Some 0x22, Some 0x11, Some 0xE51A7F80, Some 0x33, Some 0x44],
      button_in = [], trace = []\<rparr>"
  by (simp add: noisy_board_def power_on_blank CONFIG_IR_CODE_def)


subsection \<open>Configuring: termination\<close>

declare enterConfigMode_passes.simps [simp del]

lemma passes_numeral:
  "enterConfigMode_passes (numeral v) k s =
     (if k < NUM_RELAYS
      then enterConfigMode_passes (pred_numeral v) (fst (enterConfigMode_body k s))
                                    (snd (enterConfigMode_body k s))
      else (k, s))"
  by (simp add: numeral_eq_Suc enterConfigMode_passes.simps)

lemma entry_closed:
  "enterConfigMode_entry s =
     s\<lparr>pins := (pins s)(LED_BUILTIN := LOW),
       trace := trace s @ [Serial_println ''Entering Config Mode'', Digital_write LED_BUILTIN HIGH,
                          Delay 1000, Digital_write LED_BUILTIN LOW],
       hex_codes := [0, 0, 0, 0]\<rparr>"
  by (simp add: enterConfigMode_entry_def Let_def prims NUM_RELAYS_eq replicate_4)

lemmas run_simps = passes_numeral enterConfigMode_passes.simps entry_closed body_closed code_closed NUM_RELAYS_eq
  CONFIG_IR_CODE_def LED_BUILTIN_def while_step while_done

text \<open>
  C6. Whenever the decoder's script holds at least N pairwise different learnable codes
  (nonzero, not the Trigger Code), the Configuring loop started by \<open>enterConfigMode\<close>
  returns, with filled-count exactly N, and so does \<open>enterConfigMode\<close>; zero, Trigger
  and duplicate codes may stand anywhere in the script. A pass that receives such a
  rejected code leaves the filled-count as it was.
\<close>

theorem C6_configuring_terminates:
  assumes "NUM_RELAYS \<le> card (set (learnable_codes (ir_in s)))"
  shows "(\<exists>s'. enterConfigMode_while 0 (enterConfigMode_entry s) = Some (NUM_RELAYS, s'))
       \<and> enterConfigMode s \<noteq> None
       \<and> (\<forall>n c rs. fst (enterConfigMode_passes n 0 (enterConfigMode_entry s)) < NUM_RELAYS
              \<and> ir_in (snd (enterConfigMode_passes n 0 (enterConfigMode_entry s))) = Some c # rs
              \<and> (c = 0 \<or> c = CONFIG_IR_CODE
                  \<or> c \<in> set (take (fst (enterConfigMode_passes n 0 (enterConfigMode_entry s)))
                                    (hex_codes (snd (enterConfigMode_passes n 0 (enterConfigMode_entry s))))))
            \<longrightarrow> fst (enterConfigMode_body (fst (enterConfigMode_passes n 0 (enterConfigMode_entry s)))
                                            (snd (enterConfigMode_passes n 0 (enterConfigMode_entry s))))
                = fst (enterConfigMode_passes n 0 (enterConfigMode_entry s)))"
proof (intro conjI allI impI)
  have "NUM_RELAYS - 0 \<le> card (set (learnable_codes (ir_in s))
           - set (take 0 (hex_codes (enterConfigMode_entry s))))"
    using assms by simp
  from while_terminates [OF entry_inv ir_in_entry this]
  show ex: "\<exists>s'. enterConfigMode_while 0 (enterConfigMode_entry s) = Some (NUM_RELAYS, s')" .
  then show "enterConfigMode s \<noteq> None"
    by (auto simp add: enterConfigMode_def)
next
  fix n c rs
  let ?k = "fst (enterConfigMode_passes n 0 (enterConfigMode_entry s))"
  let ?s = "snd (enterConfigMode_passes n 0 (enterConfigMode_entry s))"
  assume a: "?k < NUM_RELAYS \<and> ir_in ?s = Some c # rs
             \<and> (c = 0 \<or> c = CONFIG_IR_CODE \<or> c \<in> set (take ?k (hex_codes ?s)))"
  have inv: "learn_inv ?k ?s" by (rule passes_inv [OF entry_inv])
  from a have k: "?k < NUM_RELAYS" and ir: "ir_in ?s = Some c # rs" by simp_all
  from a body_step(1) [OF inv k ir]
  show "fst (enterConfigMode_body ?k ?s) = ?k"
    by (auto simp add: learnable_def)
qed


theorem C6_configuring_terminates_witness:
  "NUM_RELAYS \<le> card (set (learnable_codes (ir_in noisy_board)))
   \<and> (\<exists>s'. enterConfigMode_while 0 (enterConfigMode_entry noisy_board) = Some (NUM_RELAYS, s'))
   \<and> enterConfigMode noisy_board \<noteq> None
   \<and> fst (enterConfigMode_passes 4 0 (enterConfigMode_entry noisy_board)) = 2
   \<and> ir_in (snd (enterConfigMode_passes 4 0 (enterConfigMode_entry noisy_board)))
        = Some 0x11 # [Some CONFIG_IR_CODE, Some 0x33, Some 0x44]
   \<and> hex_codes (snd (enterConfigMode_passes 4 0 (enterConfigMode_entry noisy_board)))
        = [0x11, 0x22, 0, 0]
   \<and> fst (enterConfigMode_body 2 (snd (enterConfigMode_passes 4 0 (enterConfigMode_entry noisy_board)))) = 2"
proof -
  have h: "NUM_RELAYS \<le> card (set (learnable_codes (ir_in noisy_board)))"
    by (simp add: noisy_board_eq learnable_codes_simps learnable_def CONFIG_IR_CODE_def
        NUM_RELAYS_eq card_insert_if)
  have e: "fst (enterConfigMode_passes 4 0 (enterConfigMode_entry noisy_board)) = 2"
    "ir_in (snd (enterConfigMode_passes 4 0 (enterConfigMode_entry noisy_board)))
        = Some 0x11 # [Some CONFIG_IR_CODE, Some 0x33, Some 0x44]"
    "hex_codes (snd (enterConfigMode_passes 4 0 (enterConfigMode_entry noisy_board)))
        = [0x11, 0x22, 0, 0]"
    by (simp_all add: noisy_board_eq run_simps)
  note t = C6_configuring_terminates [OF h]
  from t [THEN conjunct2, THEN conjunct2, rule_format,
          of 4 "0x11" "[Some CONFIG_IR_CODE, Some 0x33, Some 0x44]"] e
  have "fst (enterConfigMode_body 2 (snd (enterConfigMode_passes 4 0 (enterConfigMode_entry noisy_board)))) = 2"
    by (simp add: NUM_RELAYS_eq)
  with t h e show ?thesis by simp
qed

lemma twice_board_eq:
  "twice_board = \<lparr>hex_codes = [0, 0, 0, 0], relay_states = [False, False, False, False],
      eeprom = \<lambda>a. 0, pins = \<lambda>p. LOW,
      ir_in = [Some 0x11, Some 0, Some 0x22, None, Some 0x33, Some 0x22, Some 0x44],
      button_in = [], trace = []\<rparr>"
  by (simp add: twice_board_def power_on_blank)


subsection \<open>Configuring: duplicates\<close>

lemma learn_inv_entries:
  assumes "learn_inv k s" "i < NUM_RELAYS" "j < NUM_RELAYS" "i \<noteq> j"
    and "hex_codes s ! i = hex_codes s ! j"
  shows "hex_codes s ! i = 0"
proof -
  from assms(1) have len: "length (hex_codes s) = NUM_RELAYS" and k: "k \<le> NUM_RELAYS"
    and d: "distinct (take k (hex_codes s))"
    and z: "drop k (hex_codes s) = replicate (NUM_RELAYS - k) 0"
    by (simp_all add: learn_inv_def)
  have zero: "hex_codes s ! m = 0" if "k \<le> m" "m < NUM_RELAYS" for m
  proof -
    have "hex_codes s ! m = drop k (hex_codes s) ! (m - k)"
      using that len by simp
    also have "\<dots> = 0" using that by (simp add: z)
    finally show ?thesis .
  qed
  show ?thesis
  proof (cases "i < k \<and> j < k")
    case True
    then have "take k (hex_codes s) ! i = take k (hex_codes s) ! j"
      using assms(5) by simp
    moreover have "i < length (take k (hex_codes s))" "j < length (take k (hex_codes s))"
      using True len k by simp_all
    ultimately have "i = j" using nth_eq_iff_index_eq [OF d, of i j] by simp
    with assms(4) show ?thesis by simp
  next
    case False
    then consider "k \<le> i" | "k \<le> j" by linarith
    then show ?thesis
    proof cases
      case 1
      then show ?thesis using zero assms(2) by simp
    next
      case 2
      then show ?thesis using zero [of j] assms(3,5) by simp
    qed
  qed
qed

lemma body_duplicate:
  assumes "k \<le> length (hex_codes s)" "c \<in> set (take k (hex_codes s))"
    and "c \<noteq> 0" "c \<noteq> CONFIG_IR_CODE" "ir_in s = Some c # rest"
  shows "enterConfigMode_body k s =
       (k, s\<lparr>pins := (pins s)(LED_BUILTIN := LOW),
               trace := trace s @
                 [Digital_write LED_BUILTIN (lnot (pins s LED_BUILTIN)), Delay 300,
                  Serial_println ''Duplicate!'',
                  Digital_write LED_BUILTIN HIGH, Delay 100, Digital_write LED_BUILTIN LOW, Delay 100,
                  Digital_write LED_BUILTIN HIGH, Delay 100, Digital_write LED_BUILTIN LOW, Delay 100,
                  Digital_write LED_BUILTIN HIGH, Delay 100, Digital_write LED_BUILTIN LOW, Delay 100,
                  IrReceiver_resume],
               ir_in := rest\<rparr>)"
proof -
  have kl': "k \<le> length (hex_codes (s\<lparr>pins := p, trace := t, ir_in := rest\<rparr>))" for p t
    using assms(1) by simp
  show ?thesis
    using assms(2-5) by (simp add: body_closed code_closed [OF kl'])
qed

text \<open>
  C1. Let a learnable code \<open>c\<close> (nonzero, not the Trigger Code) stand twice in the
  script of a Configuring run, and let slots still be free when the loop polls the second
  one. Then the pass that receives the second \<open>c\<close> leaves the filled-count and the
  buffer as they were and gives the duplicate cue: the report \<open>Duplicate!\<close> and three
  short blinks of the LED. After any number of passes the filled slots of the buffer are
  pairwise different, and two slots of the buffer are equal only when both hold zero,
  the value of a slot not yet filled.
\<close>

theorem C1_duplicate_rejected:
  assumes "c \<noteq> 0" and "c \<noteq> CONFIG_IR_CODE"
    and "ir_in s = pre @ Some c # mid @ Some c # rest"
    and "fst (enterConfigMode_passes (length pre + 1 + length mid) 0 (enterConfigMode_entry s))
           < NUM_RELAYS"
  shows "(let k = fst (enterConfigMode_passes (length pre + 1 + length mid) 0 (enterConfigMode_entry s));
              s1 = snd (enterConfigMode_passes (length pre + 1 + length mid) 0 (enterConfigMode_entry s))
          in enterConfigMode_body k s1 =
               (k, s1\<lparr>pins := (pins s1)(LED_BUILTIN := LOW),
                       trace := trace s1 @
                         [Digital_write LED_BUILTIN (lnot (pins s1 LED_BUILTIN)), Delay 300,
                          Serial_println ''Duplicate!'',
                          Digital_write LED_BUILTIN HIGH, Delay 100, Digital_write LED_BUILTIN LOW, Delay 100,
                          Digital_write LED_BUILTIN HIGH, Delay 100, Digital_write LED_BUILTIN LOW, Delay 100,
                          Digital_write LED_BUILTIN HIGH, Delay 100, Digital_write LED_BUILTIN LOW, Delay 100,
                          IrReceiver_resume],
                       ir_in := rest\<rparr>))
       \<and> (\<forall>n. distinct (take (fst (enterConfigMode_passes n 0 (enterConfigMode_entry s)))
                            (hex_codes (snd (enterConfigMode_passes n 0 (enterConfigMode_entry s)))))
              \<and> (\<forall>i < NUM_RELAYS. \<forall>j < NUM_RELAYS.
                    i \<noteq> j \<and> hex_codes (snd (enterConfigMode_passes n 0 (enterConfigMode_entry s))) ! i
                            = hex_codes (snd (enterConfigMode_passes n 0 (enterConfigMode_entry s))) ! j
                    \<longrightarrow> hex_codes (snd (enterConfigMode_passes n 0 (enterConfigMode_entry s))) ! i = 0))"
proof -
  let ?n = "length pre + 1 + length mid"
  let ?k = "fst (enterConfigMode_passes ?n 0 (enterConfigMode_entry s))"
  let ?s = "snd (enterConfigMode_passes ?n 0 (enterConfigMode_entry s))"
  have inv: "learn_inv ?k ?s" by (rule passes_inv [OF entry_inv])
  then have kl: "?k \<le> length (hex_codes ?s)" by (simp add: learn_inv_def)
  have ir: "ir_in ?s = Some c # rest"
    using passes_ir_in [OF assms(4)] assms(3) by (simp add: ir_in_entry)
  have "Some c \<in> set (take ?n (ir_in (enterConfigMode_entry s)))"
    using assms(3) by (simp add: ir_in_entry)
  from passes_learns [OF entry_inv assms(4) this] assms(1,2)
  have seen: "c \<in> set (take ?k (hex_codes ?s))" by (simp add: learnable_def)
  note dup = body_duplicate [OF kl seen assms(1,2) ir]
  have all: "distinct (take (fst (enterConfigMode_passes n 0 (enterConfigMode_entry s)))
                            (hex_codes (snd (enterConfigMode_passes n 0 (enterConfigMode_entry s)))))
              \<and> (\<forall>i < NUM_RELAYS. \<forall>j < NUM_RELAYS.
                    i \<noteq> j \<and> hex_codes (snd (enterConfigMode_passes n 0 (enterConfigMode_entry s))) ! i
                            = hex_codes (snd (enterConfigMode_passes n 0 (enterConfigMode_entry s))) ! j
                    \<longrightarrow> hex_codes (snd (enterConfigMode_passes n 0 (enterConfigMode_entry s))) ! i = 0)" for n
    using passes_inv [OF entry_inv, of n s] learn_inv_entries
    by (auto simp add: learn_inv_def)
  show ?thesis
    unfolding Let_def using dup all by blast
qed

theorem C1_duplicate_rejected_witness:
  "(0x22 :: u32) \<noteq> 0 \<and> (0x22 :: u32) \<noteq> CONFIG_IR_CODE
   \<and> ir_in twice_board = [Some 0x11, Some 0] @ Some 0x22 # [None, Some 0x33] @ Some 0x22 # [Some 0x44]
   \<and> fst (enterConfigMode_passes 5 0 (enterConfigMode_entry twice_board)) = 3
   \<and> hex_codes (snd (enterConfigMode_passes 5 0 (enterConfigMode_entry twice_board))) = [0x11, 0x22, 0x33, 0]
   \<and> fst (enterConfigMode_body 3 (snd (enterConfigMode_passes 5 0 (enterConfigMode_entry twice_board)))) = 3
   \<and> hex_codes (snd (enterConfigMode_body 3 (snd (enterConfigMode_passes 5 0 (enterConfigMode_entry twice_board)))))
        = [0x11, 0x22, 0x33, 0]
   \<and> distinct (take 3 (hex_codes (snd (enterConfigMode_passes 5 0 (enterConfigMode_entry twice_board)))))"
proof -
  have h: "(0x22 :: u32) \<noteq> 0" "(0x22 :: u32) \<noteq> CONFIG_IR_CODE"
    "ir_in twice_board = [Some 0x11, Some 0] @ Some 0x22 # [None, Some 0x33] @ Some 0x22 # [Some 0x44]"
    by (simp_all add: twice_board_eq CONFIG_IR_CODE_def)
  have e: "fst (enterConfigMode_passes 5 0 (enterConfigMode_entry twice_board)) = 3"
    "hex_codes (snd (enterConfigMode_passes 5 0 (enterConfigMode_entry twice_board))) = [0x11, 0x22, 0x33, 0]"
    by (simp_all add: twice_board_eq run_simps)
  have n: "length [Some (0x11 :: u32), Some 0] + 1 + length [None, Some (0x33 :: u32)] = 5"
    by simp
  have k: "fst (enterConfigMode_passes (length [Some (0x11 :: u32), Some 0] + 1 + length [None, Some (0x33 :: u32)])
                  0 (enterConfigMode_entry twice_board)) < NUM_RELAYS"
    unfolding n by (simp add: e NUM_RELAYS_eq)
  note t = C1_duplicate_rejected [OF h k, unfolded n Let_def e]
  from t [THEN conjunct1] t [THEN conjunct2, THEN spec, of 5, THEN conjunct1] h e
  show ?thesis by (simp add: e)
qed

subsection \<open>Configuring: the saved table\<close>

lemma EEPROM_get_put:
  assumes "length codes = NUM_RELAYS"
  shows "EEPROM_get 0 (EEPROM_put 0 codes s) = codes"
proof (rule nth_equalityI)
  show "length (EEPROM_get 0 (EEPROM_put 0 codes s)) = length codes"
    using assms by (simp add: EEPROM_get_def)
next
  fix i
  assume "i < length (EEPROM_get 0 (EEPROM_put 0 codes s))"
  then have i: "i < NUM_RELAYS" by (simp add: EEPROM_get_def)
  have d: "(4 * i + 1) div 4 = i" "(4 * i + 2) div 4 = i" "(4 * i + 3) div 4 = i"
    "(4 * i + 1) mod 4 = 1" "(4 * i + 2) mod 4 = 2" "(4 * i + 3) mod 4 = 3"
    "Suc (4 * i) div 4 = i" "Suc (Suc (4 * i)) div 4 = i" "Suc (Suc (4 * i)) mod 4 = 2"
    by presburger+
  have "EEPROM_get 0 (EEPROM_put 0 codes s) ! i =
          le_word (le_bytes (codes ! i) ! 0) (le_bytes (codes ! i) ! 1)
                  (le_bytes (codes ! i) ! 2) (le_bytes (codes ! i) ! 3)"
    using i assms by (simp add: EEPROM_get_def EEPROM_put_def emit_def d)
  then show "EEPROM_get 0 (EEPROM_put 0 codes s) ! i = codes ! i"
    by (simp only: le_word_le_bytes)
qed

lemma exit_closed:
  "enterConfigMode_exit s =
     s\<lparr>eeprom := (\<lambda>x. if x < 4 * length (hex_codes s)
                        then le_bytes (hex_codes s ! (x div 4)) ! (x mod 4) else eeprom s x),
       pins := (pins s)(LED_BUILTIN := HIGH),
       trace := trace s @ [Eeprom_put 0 (hex_codes s), Serial_println ''Configuration Saved'',
                          Digital_write LED_BUILTIN HIGH]\<rparr>"
  by (simp add: enterConfigMode_exit_def EEPROM_put_def Let_def prims cong: if_cong)

lemma EEPROM_get_exit:
  assumes "length (hex_codes s) = NUM_RELAYS"
  shows "EEPROM_get 0 (enterConfigMode_exit s) = hex_codes s"
proof -
  have "EEPROM_get 0 (enterConfigMode_exit s) = EEPROM_get 0 (EEPROM_put 0 (hex_codes s) s)"
    by (simp add: enterConfigMode_exit_def Let_def prims EEPROM_get_def EEPROM_put_def)
  then show ?thesis by (simp add: EEPROM_get_put [OF assms])
qed

text \<open>
  C2. With N = 4 and the Trigger Code 0xE51A7F80, \<open>enterConfigMode\<close> on the decoder
  script 0x11, 0x22, 0x11, 0x33, 0x44 returns; it reports the codes 0x11, 0x22, 0x33, 0x44
  as stored in the slots 0 to 3, in this order, and one \<open>Duplicate!\<close>, for the second
  0x11; the table in memory and the table read back from the EEPROM are
  0x11, 0x22, 0x33, 0x44.
\<close>

theorem C2_scenario:
  "NUM_RELAYS = 4 \<and> CONFIG_IR_CODE = 0xE51A7F80 \<and>
   (\<exists>s'. enterConfigMode (s\<lparr>ir_in := [Some 0x11, Some 0x22, Some 0x11, Some 0x33, Some 0x44]\<rparr>) = Some s'
     \<and> hex_codes s' = [0x11, 0x22, 0x33, 0x44]
     \<and> EEPROM_get 0 s' = [0x11, 0x22, 0x33, 0x44]
     \<and> ir_in s' = []
     \<and> filter is_report (trace s') = filter is_report (trace s) @
          [Serial_println ''Entering Config Mode'',
           Serial_print ''Stored code '', Serial_print_num 0, Serial_print '': '', Serial_println_hex 0x11,
           Serial_print ''Stored code '', Serial_print_num 1, Serial_print '': '', Serial_println_hex 0x22,
           Serial_println ''Duplicate!'',
           Serial_print ''Stored code '', Serial_print_num 2, Serial_print '': '', Serial_println_hex 0x33,
           Serial_print ''Stored code '', Serial_print_num 3, Serial_print '': '', Serial_println_hex 0x44,
           Serial_println ''Configuration Saved''])"
proof -
  let ?s = "s\<lparr>ir_in := [Some 0x11, Some 0x22, Some 0x11, Some 0x33, Some 0x44]\<rparr>"
  obtain k s1 where w: "enterConfigMode_while 0 (enterConfigMode_entry ?s) = Some (k, s1)"
    and h: "hex_codes s1 = [0x11, 0x22, 0x33, 0x44]" and i: "ir_in s1 = []"
    and t: "filter is_report (trace s1) = filter is_report (trace s) @
          [Serial_println ''Entering Config Mode'',
           Serial_print ''Stored code '', Serial_print_num 0, Serial_print '': '', Serial_println_hex 0x11,
           Serial_print ''Stored code '', Serial_print_num 1, Serial_print '': '', Serial_println_hex 0x22,
           Serial_println ''Duplicate!'',
           Serial_print ''Stored code '', Serial_print_num 2, Serial_print '': '', Serial_println_hex 0x33,
           Serial_print ''Stored code '', Serial_print_num 3, Serial_print '': '', Serial_println_hex 0x44]"
    by (simp add: run_simps is_report_def)
  have e: "enterConfigMode ?s = Some (enterConfigMode_exit s1)"
    by (simp add: enterConfigMode_def w)
  have g: "EEPROM_get 0 (enterConfigMode_exit s1) = [0x11, 0x22, 0x33, 0x44]"
    using EEPROM_get_exit [of s1] h by (simp add: NUM_RELAYS_eq)
  from e g h i t show ?thesis
    by (simp add: exit_closed is_report_def NUM_RELAYS_eq CONFIG_IR_CODE_def)
qed

theorem C2_scenario_witness:
  "\<exists>s'. enterConfigMode (blank_board\<lparr>ir_in := [Some 0x11, Some 0x22, Some 0x11, Some 0x33, Some 0x44]\<rparr>) = Some s'
     \<and> hex_codes s' = [0x11, 0x22, 0x33, 0x44]
     \<and> EEPROM_get 0 s' = [0x11, 0x22, 0x33, 0x44]
     \<and> length (filter (\<lambda>e. e = Serial_println ''Duplicate!'') (trace s')) = 1"
proof -
  from C2_scenario [of blank_board] obtain s'
    where a: "enterConfigMode (blank_board\<lparr>ir_in := [Some 0x11, Some 0x22, Some 0x11, Some 0x33, Some 0x44]\<rparr>) = Some s'"
      "hex_codes s' = [0x11, 0x22, 0x33, 0x44]" "EEPROM_get 0 s' = [0x11, 0x22, 0x33, 0x44]"
    and t: "filter is_report (trace s') = filter is_report (trace blank_board) @
          [Serial_println ''Entering Config Mode'',
           Serial_print ''Stored code '', Serial_print_num 0, Serial_print '': '', Serial_println_hex 0x11,
           Serial_print ''Stored code '', Serial_print_num 1, Serial_print '': '', Serial_println_hex 0x22,
           Serial_println ''Duplicate!'',
           Serial_print ''Stored code '', Serial_print_num 2, Serial_print '': '', Serial_println_hex 0x33,
           Serial_print ''Stored code '', Serial_print_num 3, Serial_print '': '', Serial_println_hex 0x44,
           Serial_println ''Configuration Saved'']"
    by blast
  have "filter (\<lambda>e. e = Serial_println ''Duplicate!'') (trace s')
        = filter (\<lambda>e. e = Serial_println ''Duplicate!'') (filter is_report (trace s'))"
    by (auto simp add: is_report_def intro!: filter_cong)
  also have "\<dots> = [Serial_println ''Duplicate!'']"
    by (simp add: t power_on_blank)
  finally show ?thesis using a by simp
qed

lemma while_exit: "enterConfigMode_while k s = Some (k', s') \<Longrightarrow> \<not> k' < NUM_RELAYS"
proof (induction k s rule: enterConfigMode_while.induct)
  case (1 k s)
  show ?case
  proof (cases "k < NUM_RELAYS")
    case False
    with 1(2) show ?thesis by (simp add: while_done)
  next
    case True
    show ?thesis
    proof (cases "ir_in s = []")
      case True
      with \<open>k < NUM_RELAYS\<close> 1(2) show ?thesis by (simp add: while_stuck)
    next
      case False
      with \<open>k < NUM_RELAYS\<close> 1(2)
      have "enterConfigMode_while (fst (enterConfigMode_body k s)) (snd (enterConfigMode_body k s)) = Some (k', s')"
        by (simp add: while_step)
      from 1(1) [OF \<open>k < NUM_RELAYS\<close> False this] show ?thesis .
    qed
  qed
qed

lemma while_inv:
  assumes "enterConfigMode_while k s = Some (k', s')" "learn_inv k s"
  shows "learn_inv k' s' \<and> k' = NUM_RELAYS"
proof -
  from while_passes [OF assms(1)] obtain n where "enterConfigMode_passes n k s = (k', s')" ..
  with passes_inv [OF assms(2), of n] have i: "learn_inv k' s'" by simp
  then have "k' \<le> NUM_RELAYS" by (simp add: learn_inv_def)
  with while_exit [OF assms(1)] have "k' = NUM_RELAYS" by simp
  with i show ?thesis by blast
qed

lemma enterConfigMode_returns:
  assumes "NUM_RELAYS \<le> card (set (learnable_codes (ir_in s)))"
  shows "\<exists>s'. enterConfigMode s = Some s'"
proof -
  have "NUM_RELAYS - 0 \<le> card (set (learnable_codes (ir_in s))
           - set (take 0 (hex_codes (enterConfigMode_entry s))))"
    using assms by simp
  from while_terminates [OF entry_inv ir_in_entry this]
  show ?thesis by (auto simp add: enterConfigMode_def)
qed

text \<open>
  C7. When \<open>enterConfigMode\<close> returns, the loop was left with filled-count N, and the
  code table was written to the EEPROM by the one \<open>EEPROM.put\<close> after the loop: the trace
  has no other write to the EEPROM since the entry, the table read back from the EEPROM
  is the buffer as the loop left it, and the bytes behind the table are as before. After
  any number of passes of the loop the EEPROM is still the one at the entry and no write
  to it is in the trace.
\<close>

theorem C7_table_saved_once:
  assumes "enterConfigMode s = Some s'"
  shows "(\<exists>s1. enterConfigMode_while 0 (enterConfigMode_entry s) = Some (NUM_RELAYS, s1)
            \<and> s' = enterConfigMode_exit s1
            \<and> eeprom s1 = eeprom s
            \<and> filter is_store_write (trace s1) = filter is_store_write (trace s)
            \<and> filter is_store_write (trace s') =
                 filter is_store_write (trace s) @ [Eeprom_put 0 (hex_codes s1)]
            \<and> EEPROM_get 0 s' = hex_codes s1
            \<and> hex_codes s' = hex_codes s1
            \<and> (\<forall>a. 4 * NUM_RELAYS \<le> a \<longrightarrow> eeprom s' a = eeprom s a))
       \<and> (\<forall>n. eeprom (snd (enterConfigMode_passes n 0 (enterConfigMode_entry s))) = eeprom s
              \<and> filter is_store_write (trace (snd (enterConfigMode_passes n 0 (enterConfigMode_entry s))))
                  = filter is_store_write (trace s))"
proof -
  from assms obtain k s1
    where w: "enterConfigMode_while 0 (enterConfigMode_entry s) = Some (k, s1)"
      and s': "s' = enterConfigMode_exit s1"
    by (auto simp add: enterConfigMode_def split: option.splits)
  from while_inv [OF w entry_inv] have inv: "learn_inv k s1" and k: "k = NUM_RELAYS"
    by blast+
  then have len: "length (hex_codes s1) = NUM_RELAYS" by (simp add: learn_inv_def)
  have f: "config_frame s s1"
    by (rule config_frame_trans [OF entry_frame while_frame [OF w]])
  have p: "config_frame s (snd (enterConfigMode_passes n 0 (enterConfigMode_entry s)))" for n
    by (rule config_frame_trans [OF entry_frame passes_frame])
  have a: "\<exists>s1. enterConfigMode_while 0 (enterConfigMode_entry s) = Some (NUM_RELAYS, s1)
            \<and> s' = enterConfigMode_exit s1
            \<and> eeprom s1 = eeprom s
            \<and> filter is_store_write (trace s1) = filter is_store_write (trace s)
            \<and> filter is_store_write (trace s') =
                 filter is_store_write (trace s) @ [Eeprom_put 0 (hex_codes s1)]
            \<and> EEPROM_get 0 s' = hex_codes s1
            \<and> hex_codes s' = hex_codes s1
            \<and> (\<forall>a. 4 * NUM_RELAYS \<le> a \<longrightarrow> eeprom s' a = eeprom s a)"
    using w k s' f len EEPROM_get_exit [OF len]
    by (intro exI [of _ s1]) (simp add: config_frame_def exit_closed is_store_write_def)
  from a p show ?thesis
    by (simp add: config_frame_def)
qed

theorem C7_table_saved_once_witness:
  "\<exists>s'. enterConfigMode twice_board = Some s'
     \<and> EEPROM_get 0 s' = hex_codes s'
     \<and> filter is_store_write (trace s') = [Eeprom_put 0 (hex_codes s')]
     \<and> eeprom (snd (enterConfigMode_passes 5 0 (enterConfigMode_entry twice_board))) = eeprom twice_board
     \<and> hex_codes (snd (enterConfigMode_passes 5 0 (enterConfigMode_entry twice_board))) = [0x11, 0x22, 0x33, 0]"
proof -
  have "NUM_RELAYS \<le> card (set (learnable_codes (ir_in twice_board)))"
    by (simp add: twice_board_eq learnable_codes_simps learnable_def CONFIG_IR_CODE_def
        NUM_RELAYS_eq card_insert_if)
  from enterConfigMode_returns [OF this] obtain s' where r: "enterConfigMode twice_board = Some s'" ..
  have e: "hex_codes (snd (enterConfigMode_passes 5 0 (enterConfigMode_entry twice_board))) = [0x11, 0x22, 0x33, 0]"
    by (simp add: twice_board_eq run_simps)
  have t: "filter is_store_write (trace twice_board) = []"
    by (simp add: twice_board_eq)
  from C7_table_saved_once [OF r] r e t show ?thesis
    by auto
qed

subsection \<open>Normal mode: dispatch\<close>

lemma toggle_closed:
  assumes "i < length (relay_states s)"
  shows "toggleRelay i s =
     s\<lparr>relay_states := (relay_states s)[i := \<not> relay_states s ! i],
       pins := (pins s)(RELAY_PINS ! i := relay_level (\<not> relay_states s ! i)),
       eeprom := (eeprom s)(RELAY_STATE_ADDR + i := of_bool (\<not> relay_states s ! i)),
       trace := trace s @
         [Digital_write (RELAY_PINS ! i) (relay_level (\<not> relay_states s ! i)),
          Eeprom_update (RELAY_STATE_ADDR + i) (of_bool (\<not> relay_states s ! i)),
          Serial_print ''Relay '', Serial_print_num i,
          Serial_println (relay_text (\<not> relay_states s ! i))]\<rparr>"
  using assms
  by (intro state.equality) (auto simp add: toggleRelay_def Let_def prims EEPROM_update_def)

lemma scan_first:
  "j < NUM_RELAYS \<Longrightarrow> hex_codes s ! j = c \<Longrightarrow> \<forall>i<j. hex_codes s ! i \<noteq> c \<Longrightarrow> i \<le> j \<Longrightarrow>
   loop_scan i c s = toggleRelay j s"
proof (induction i c s rule: loop_scan.induct)
  case (1 i c s)
  show ?case
  proof (cases "i = j")
    case True
    with 1(2,3) show ?thesis by (subst loop_scan.simps) simp
  next
    case False
    with 1(5) have lt: "i < j" by simp
    with 1(2) have iN: "i < NUM_RELAYS" by simp
    from lt 1(4) have ne: "c \<noteq> hex_codes s ! i" by auto
    from 1(1) [OF iN ne 1(2,3,4)] lt have "loop_scan (i + 1) c s = toggleRelay j s" by simp
    with iN ne show ?thesis by (subst loop_scan.simps) simp
  qed
qed

lemma scan_cases:
  "loop_scan i c s = s \<or> (\<exists>j<NUM_RELAYS. loop_scan i c s = toggleRelay j s)"
proof (induction i c s rule: loop_scan.induct)
  case (1 i c s)
  show ?case
  proof (cases "i < NUM_RELAYS")
    case False
    then show ?thesis by (subst loop_scan.simps) simp
  next
    case True
    show ?thesis
    proof (cases "c = hex_codes s ! i")
      case eq: True
      have "loop_scan i c s = toggleRelay i s"
        using True eq by (subst loop_scan.simps) simp
      with True show ?thesis by blast
    next
      case False
      have "loop_scan i c s = loop_scan (i + 1) c s"
        using True False by (subst loop_scan.simps) simp
      with 1 [OF True False] show ?thesis by simp
    qed
  qed
qed

lemma RELAY_PINS_distinct: "distinct RELAY_PINS"
  by (simp add: RELAY_PINS_def)

lemma relay_pin_neq:
  "i < NUM_RELAYS \<Longrightarrow> j < NUM_RELAYS \<Longrightarrow> i \<noteq> j \<Longrightarrow> RELAY_PINS ! i \<noteq> RELAY_PINS ! j"
  using RELAY_PINS_distinct by (simp add: NUM_RELAYS_def nth_eq_iff_index_eq)

lemma relay_pin_in: "i < NUM_RELAYS \<Longrightarrow> RELAY_PINS ! i \<in> set RELAY_PINS"
  by (simp add: NUM_RELAYS_def)

text \<open>What one \<open>toggleRelay j\<close> changes, and what it leaves.\<close>

lemma toggle_effect:
  assumes "j < NUM_RELAYS" "length (relay_states s) = NUM_RELAYS"
  shows "relay_states (toggleRelay j s) ! j = (\<not> relay_states s ! j)"
    and "\<forall>i<NUM_RELAYS. i \<noteq> j \<longrightarrow>
           relay_states (toggleRelay j s) ! i = relay_states s ! i
           \<and> pins (toggleRelay j s) (RELAY_PINS ! i) = pins s (RELAY_PINS ! i)
           \<and> eeprom (toggleRelay j s) (RELAY_STATE_ADDR + i) = eeprom s (RELAY_STATE_ADDR + i)"
    and "filter is_relay_write (trace (toggleRelay j s)) =
           filter is_relay_write (trace s) @
             [Digital_write (RELAY_PINS ! j) (relay_level (\<not> relay_states s ! j))]"
    and "filter is_store_write (trace (toggleRelay j s)) =
           filter is_store_write (trace s) @
             [Eeprom_update (RELAY_STATE_ADDR + j) (of_bool (\<not> relay_states s ! j))]"
    and "hex_codes (toggleRelay j s) = hex_codes s"
    and "pins (toggleRelay j s) (RELAY_PINS ! j) = relay_level (\<not> relay_states s ! j)"
    and "eeprom (toggleRelay j s) (RELAY_STATE_ADDR + j) = of_bool (\<not> relay_states s ! j)"
    and "length (relay_states (toggleRelay j s)) = NUM_RELAYS"
proof -
  from assms have l: "j < length (relay_states s)" by simp
  note c = toggle_closed [OF l]
  show "relay_states (toggleRelay j s) ! j = (\<not> relay_states s ! j)"
    using l by (simp add: c)
  show "\<forall>i<NUM_RELAYS. i \<noteq> j \<longrightarrow>
           relay_states (toggleRelay j s) ! i = relay_states s ! i
           \<and> pins (toggleRelay j s) (RELAY_PINS ! i) = pins s (RELAY_PINS ! i)
           \<and> eeprom (toggleRelay j s) (RELAY_STATE_ADDR + i) = eeprom s (RELAY_STATE_ADDR + i)"
    using assms(1) relay_pin_neq by (auto simp add: c)
  show "filter is_relay_write (trace (toggleRelay j s)) =
           filter is_relay_write (trace s) @
             [Digital_write (RELAY_PINS ! j) (relay_level (\<not> relay_states s ! j))]"
    using relay_pin_in [OF assms(1)] by (simp add: c is_relay_write_def)
  show "filter is_store_write (trace (toggleRelay j s)) =
           filter is_store_write (trace s) @
             [Eeprom_update (RELAY_STATE_ADDR + j) (of_bool (\<not> relay_states s ! j))]"
    by (simp add: c is_store_write_def)
  show "hex_codes (toggleRelay j s) = hex_codes s" by (simp add: c)
  show "pins (toggleRelay j s) (RELAY_PINS ! j) = relay_level (\<not> relay_states s ! j)"
    by (simp add: c)
  show "eeprom (toggleRelay j s) (RELAY_STATE_ADDR + j) = of_bool (\<not> relay_states s ! j)"
    by (simp add: c)
  show "length (relay_states (toggleRelay j s)) = NUM_RELAYS"
    using assms(2) by (simp add: c)
qed

lemma loop_ir_dispatch:
  assumes "c \<noteq> CONFIG_IR_CODE" "j < NUM_RELAYS" "hex_codes s ! j = c" "\<forall>i<j. hex_codes s ! i \<noteq> c"
  shows "loop_ir c s =
           Some (emit IrReceiver_resume
                  (toggleRelay j (emit (Serial_println_hex c) (emit (Serial_print ''IR Received: '') s))))"
proof -
  let ?s = "emit (Serial_println_hex c) (emit (Serial_print ''IR Received: '') s)"
  have h: "hex_codes ?s = hex_codes s" by (simp add: emit_def)
  have "loop_scan 0 c ?s = toggleRelay j ?s"
    by (rule scan_first) (use assms h in simp_all)
  with assms(1) show ?thesis by (simp add: loop_ir_def Let_def)
qed

lemma enterConfigMode_frame:
  assumes "enterConfigMode s = Some s'"
  shows "relay_states s' = relay_states s"
    and "\<forall>p. p \<noteq> LED_BUILTIN \<longrightarrow> pins s' p = pins s p"
    and "\<forall>a. RELAY_STATE_ADDR \<le> a \<longrightarrow> eeprom s' a = eeprom s a"
    and "filter is_relay_write (trace s') = filter is_relay_write (trace s)"
    and "filter is_store_write (trace s') = filter is_store_write (trace s) @ [Eeprom_put 0 (hex_codes s')]"
    and "button_in s' = button_in s"
    and "length (hex_codes s') = NUM_RELAYS"
proof -
  from assms obtain k s1
    where w: "enterConfigMode_while 0 (enterConfigMode_entry s) = Some (k, s1)"
      and s': "s' = enterConfigMode_exit s1"
    by (auto simp add: enterConfigMode_def split: option.splits)
  from while_inv [OF w entry_inv] have "learn_inv k s1" by blast
  then have len: "length (hex_codes s1) = NUM_RELAYS" by (simp add: learn_inv_def)
  have f: "config_frame s s1"
    by (rule config_frame_trans [OF entry_frame while_frame [OF w]])
  show "relay_states s' = relay_states s"
    using f by (simp add: s' exit_closed config_frame_def)
  show "\<forall>p. p \<noteq> LED_BUILTIN \<longrightarrow> pins s' p = pins s p"
    using f by (simp add: s' exit_closed config_frame_def)
  show "\<forall>a. RELAY_STATE_ADDR \<le> a \<longrightarrow> eeprom s' a = eeprom s a"
    using f len by (simp add: s' exit_closed config_frame_def RELAY_STATE_ADDR_def NUM_RELAYS_eq)
  show "filter is_relay_write (trace s') = filter is_relay_write (trace s)"
    using f by (simp add: s' exit_closed config_frame_def is_relay_write_def LED_not_relay)
  show "filter is_store_write (trace s') = filter is_store_write (trace s) @ [Eeprom_put 0 (hex_codes s')]"
    using f by (simp add: s' exit_closed config_frame_def is_store_write_def)
  show "button_in s' = button_in s"
    using f by (simp add: s' exit_closed config_frame_def)
  show "length (hex_codes s') = NUM_RELAYS"
    using len by (simp add: s' exit_closed)
qed

lemma loop_button_idle: "button_in s = [] \<Longrightarrow> loop_button s = Some s"
  by (simp add: loop_button_def digitalRead_button_def)

lemma trigger_board_eq:
  "trigger_board = \<lparr>hex_codes = [0xE51A7F80, 0x22, 0x33, 0x44],
      relay_states = [False, False, False, False],
      eeprom = \<lambda>a. 0, pins = \<lambda>p. LOW, ir_in = [Some 0x11, Some 0x22, Some 0x33, Some 0x44],
      button_in = [], trace = []\<rparr>"
  by (simp add: trigger_board_def power_on_blank)

lemma double_board_eq:
  "double_board = \<lparr>hex_codes = [5, 7, 7, 9], relay_states = [False, False, False, False],
      eeprom = \<lambda>a. 0, pins = \<lambda>p. LOW, ir_in = [], button_in = [], trace = []\<rparr>"
  by (simp add: double_board_def power_on_blank)

text \<open>
  C3, as the code has it. In Normal mode let the received code \<open>c\<close> be another code
  than the Trigger Code, and let \<open>j\<close> be the lowest slot of the learned codes that holds
  \<open>c\<close>. Then the dispatch performs \<open>toggleRelay j\<close> once and nothing else but its reports
  and the resume of the decoder, whatever the slots behind \<open>j\<close> hold: the state of channel
  \<open>j\<close> is flipped, the one write to a relay line and the one write to the EEPROM are
  those of channel \<open>j\<close>, and the state, the line and the saved byte of every other
  channel are as before.
\<close>

theorem C3_first_match_toggles:
  assumes "c \<noteq> CONFIG_IR_CODE" and "j < NUM_RELAYS" and "hex_codes s ! j = c"
    and "\<forall>i<j. hex_codes s ! i \<noteq> c"
    and "length (hex_codes s) = NUM_RELAYS" and "length (relay_states s) = NUM_RELAYS"
  shows "\<exists>s'. loop_ir c s = Some s'
     \<and> s' = emit IrReceiver_resume
              (toggleRelay j (emit (Serial_println_hex c) (emit (Serial_print ''IR Received: '') s)))
     \<and> relay_states s' ! j = (\<not> relay_states s ! j)
     \<and> (\<forall>i<NUM_RELAYS. i \<noteq> j \<longrightarrow>
           relay_states s' ! i = relay_states s ! i
           \<and> pins s' (RELAY_PINS ! i) = pins s (RELAY_PINS ! i)
           \<and> eeprom s' (RELAY_STATE_ADDR + i) = eeprom s (RELAY_STATE_ADDR + i))
     \<and> filter is_relay_write (trace s') =
           filter is_relay_write (trace s) @
             [Digital_write (RELAY_PINS ! j) (relay_level (\<not> relay_states s ! j))]
     \<and> filter is_store_write (trace s') =
           filter is_store_write (trace s) @
             [Eeprom_update (RELAY_STATE_ADDR + j) (of_bool (\<not> relay_states s ! j))]
     \<and> hex_codes s' = hex_codes s"
proof -
  let ?s = "emit (Serial_println_hex c) (emit (Serial_print ''IR Received: '') s)"
  have l: "length (relay_states ?s) = NUM_RELAYS"
    using assms(6) by (simp add: emit_def)
  note e = toggle_effect [OF assms(2) l]
  have r: "is_relay_write (Serial_print t) = False" "is_relay_write (Serial_println_hex c) = False"
    "is_store_write (Serial_print t) = False" "is_store_write (Serial_println_hex c) = False"
    "is_relay_write IrReceiver_resume = False" "is_store_write IrReceiver_resume = False" for t
    by (simp_all add: is_relay_write_def is_store_write_def)
  show ?thesis
    using e by (simp add: loop_ir_dispatch [OF assms(1-4)]) (simp add: emit_def r)
qed

theorem C3_first_match_toggles_witness:
  "(7 :: u32) \<noteq> CONFIG_IR_CODE \<and> (1 :: nat) < NUM_RELAYS \<and> hex_codes double_board ! 1 = 7
   \<and> hex_codes double_board ! 0 \<noteq> 7 \<and> hex_codes double_board ! 2 = 7
   \<and> length (hex_codes double_board) = NUM_RELAYS \<and> length (relay_states double_board) = NUM_RELAYS
   \<and> map_option relay_states (loop_ir 7 double_board) = Some [False, True, False, False]"
proof -
  have h: "(7 :: u32) \<noteq> CONFIG_IR_CODE" "(1 :: nat) < NUM_RELAYS" "hex_codes double_board ! 1 = 7"
    "\<forall>i<1. hex_codes double_board ! i \<noteq> 7"
    "length (hex_codes double_board) = NUM_RELAYS" "length (relay_states double_board) = NUM_RELAYS"
    by (simp_all add: double_board_eq CONFIG_IR_CODE_def NUM_RELAYS_eq)
  from C3_first_match_toggles [OF h] obtain s'
    where s': "loop_ir 7 double_board = Some s'" "relay_states s' ! 1 = (\<not> relay_states double_board ! 1)"
      "\<forall>i<NUM_RELAYS. i \<noteq> 1 \<longrightarrow> relay_states s' ! i = relay_states double_board ! i"
      "s' = emit IrReceiver_resume
              (toggleRelay 1 (emit (Serial_println_hex 7) (emit (Serial_print ''IR Received: '') double_board)))"
    by blast
  have "length (relay_states s') = 4"
    by (simp add: s'(4) emit_def toggle_closed double_board_eq)
  moreover have "relay_states s' ! 0 = False" "relay_states s' ! 1 = True"
    "relay_states s' ! 2 = False" "relay_states s' ! 3 = False"
    using s'(2,3) by (simp_all add: NUM_RELAYS_eq double_board_eq)
  ultimately have "relay_states s' = [False, True, False, False]"
    by (simp add: list_eq_iff_nth_eq nth_Cons' less_Suc_eq eval_nat_numeral)
  with h s'(1) show ?thesis by (simp add: double_board_eq)
qed

theorem C3_trigger_in_table_counterexample:
  "(0 :: nat) < NUM_RELAYS \<and> hex_codes trigger_board ! 0 = CONFIG_IR_CODE
   \<and> relay_states trigger_board = [False, False, False, False]
   \<and> map_option relay_states (loop_ir CONFIG_IR_CODE trigger_board) = Some [False, False, False, False]
   \<and> map_option (\<lambda>s. filter is_relay_write (trace s)) (loop_ir CONFIG_IR_CODE trigger_board) = Some []"
  by (simp add: trigger_board_eq loop_ir_def enterConfigMode_def emit_def run_simps exit_closed
      is_relay_write_def RELAY_PINS_def)

text \<open>
  C10. In Normal mode the code 0 is dispatched like any other code: when a slot of the
  learned codes holds 0, the value of a slot that was never programmed, and \<open>j\<close> is the
  lowest such slot, a received 0 performs \<open>toggleRelay j\<close> and flips channel \<open>j\<close>. So does
  the whole \<open>loop\<close> when the button is idle and the decoder delivers 0.
\<close>

theorem C10_zero_code_dispatched:
  assumes "j < NUM_RELAYS" and "hex_codes s ! j = 0" and "\<forall>i<j. hex_codes s ! i \<noteq> 0"
    and "length (hex_codes s) = NUM_RELAYS" and "length (relay_states s) = NUM_RELAYS"
  shows "loop_ir 0 s =
           Some (emit IrReceiver_resume
                  (toggleRelay j (emit (Serial_println_hex 0) (emit (Serial_print ''IR Received: '') s))))
       \<and> (\<exists>s'. loop_ir 0 s = Some s' \<and> relay_states s' ! j = (\<not> relay_states s ! j))
       \<and> (button_in s = [] \<and> ir_in s = Some 0 # rs \<longrightarrow>
            (\<exists>s'. loop s = Some s' \<and> relay_states s' ! j = (\<not> relay_states s ! j)))"
proof -
  have z: "(0 :: u32) \<noteq> CONFIG_IR_CODE" by (simp add: CONFIG_IR_CODE_def)
  have d: "loop_ir 0 t =
           Some (emit IrReceiver_resume
                  (toggleRelay j (emit (Serial_println_hex 0) (emit (Serial_print ''IR Received: '') t))))"
    if "hex_codes t = hex_codes s" for t
    using loop_ir_dispatch [OF z assms(1), of t] assms(2,3) that by simp
  have f: "relay_states (emit IrReceiver_resume
                  (toggleRelay j (emit (Serial_println_hex 0) (emit (Serial_print ''IR Received: '') t)))) ! j
           = (\<not> relay_states s ! j)"
    if "relay_states t = relay_states s" for t
  proof -
    have "length (relay_states (emit (Serial_println_hex 0) (emit (Serial_print ''IR Received: '') t)))
            = NUM_RELAYS"
      using that assms(5) by (simp add: emit_def)
    from toggle_effect(1) [OF assms(1) this] that show ?thesis by (simp add: emit_def)
  qed
  have l: "loop s = loop_ir 0 (s\<lparr>ir_in := rs\<rparr>)" if "button_in s = []" "ir_in s = Some 0 # rs"
    using that by (simp add: loop_def loop_button_idle IrReceiver_decode_def)
  show ?thesis
    using d [of s] f [of s] d [of "s\<lparr>ir_in := rs\<rparr>"] f [of "s\<lparr>ir_in := rs\<rparr>"] l
    by auto
qed

theorem C10_zero_code_dispatched_witness:
  "(0 :: nat) < NUM_RELAYS \<and> hex_codes blank_board ! 0 = 0
   \<and> length (hex_codes blank_board) = NUM_RELAYS \<and> length (relay_states blank_board) = NUM_RELAYS
   \<and> relay_states blank_board ! 0 = False
   \<and> button_in (blank_board\<lparr>ir_in := [Some 0]\<rparr>) = []
   \<and> (\<exists>s'. loop (blank_board\<lparr>ir_in := [Some 0]\<rparr>) = Some s' \<and> relay_states s' ! 0 = True)"
proof -
  have h: "(0 :: nat) < NUM_RELAYS" "hex_codes (blank_board\<lparr>ir_in := [Some 0]\<rparr>) ! 0 = 0"
    "\<forall>i<0. hex_codes (blank_board\<lparr>ir_in := [Some 0]\<rparr>) ! i \<noteq> 0"
    "length (hex_codes (blank_board\<lparr>ir_in := [Some 0]\<rparr>)) = NUM_RELAYS"
    "length (relay_states (blank_board\<lparr>ir_in := [Some 0]\<rparr>)) = NUM_RELAYS"
    by (simp_all add: power_on_blank NUM_RELAYS_eq)
  from C10_zero_code_dispatched [OF h, of "[]"] h show ?thesis
    by (simp add: power_on_blank)
qed

text \<open>
  C4. In Normal mode a received Trigger Code runs \<open>enterConfigMode\<close> and no scan of the
  learned codes, whatever they hold: the dispatch is the report of the code, the call
  of \<open>enterConfigMode\<close> and the resume of the decoder. When it returns, every channel has
  the state, the line level and the saved byte it had, no relay line was written, and
  the one write to the EEPROM is the save of the new code table.
\<close>

theorem C4_trigger_enters_config:
  "loop_ir CONFIG_IR_CODE s =
     map_option (emit IrReceiver_resume)
       (enterConfigMode
          (emit (Serial_println ''IR Config Trigger'')
             (emit (Serial_println_hex CONFIG_IR_CODE) (emit (Serial_print ''IR Received: '') s))))
   \<and> (\<forall>s'. loop_ir CONFIG_IR_CODE s = Some s' \<longrightarrow>
          relay_states s' = relay_states s
          \<and> (\<forall>i<NUM_RELAYS. pins s' (RELAY_PINS ! i) = pins s (RELAY_PINS ! i)
                \<and> eeprom s' (RELAY_STATE_ADDR + i) = eeprom s (RELAY_STATE_ADDR + i))
          \<and> filter is_relay_write (trace s') = filter is_relay_write (trace s)
          \<and> filter is_store_write (trace s') =
               filter is_store_write (trace s) @ [Eeprom_put 0 (hex_codes s')])"
proof -
  let ?t = "emit (Serial_println ''IR Config Trigger'')
             (emit (Serial_println_hex CONFIG_IR_CODE) (emit (Serial_print ''IR Received: '') s))"
  have eq: "loop_ir CONFIG_IR_CODE s = map_option (emit IrReceiver_resume) (enterConfigMode ?t)"
    by (simp add: loop_ir_def Let_def)
  have p: "RELAY_PINS ! i \<noteq> LED_BUILTIN" if "i < NUM_RELAYS" for i
    using relay_pin_in [OF that] LED_not_relay by auto
  have fr: "relay_states s' = relay_states s
          \<and> (\<forall>i<NUM_RELAYS. pins s' (RELAY_PINS ! i) = pins s (RELAY_PINS ! i)
                \<and> eeprom s' (RELAY_STATE_ADDR + i) = eeprom s (RELAY_STATE_ADDR + i))
          \<and> filter is_relay_write (trace s') = filter is_relay_write (trace s)
          \<and> filter is_store_write (trace s') =
               filter is_store_write (trace s) @ [Eeprom_put 0 (hex_codes s')]"
    if "loop_ir CONFIG_IR_CODE s = Some s'" for s'
  proof -
    from that eq have "map_option (emit IrReceiver_resume) (enterConfigMode ?t) = Some s'"
      by simp
    then obtain s1 where c: "enterConfigMode ?t = Some s1" and s': "s' = emit IrReceiver_resume s1"
      by (cases "enterConfigMode ?t") auto
    note f = enterConfigMode_frame [OF c]
    show ?thesis
      using f(1-5) p by (simp add: s' emit_def is_relay_write_def is_store_write_def)
  qed
  from eq fr show ?thesis by blast
qed

theorem C4_trigger_enters_config_witness:
  "hex_codes trigger_board ! 0 = CONFIG_IR_CODE
   \<and> (\<exists>s'. loop_ir CONFIG_IR_CODE trigger_board = Some s'
         \<and> relay_states s' = relay_states trigger_board
         \<and> hex_codes s' = [0x11, 0x22, 0x33, 0x44]
         \<and> filter is_relay_write (trace s') = []
         \<and> filter is_store_write (trace s') = [Eeprom_put 0 [0x11, 0x22, 0x33, 0x44]])"
proof -
  have "map_option hex_codes (loop_ir CONFIG_IR_CODE trigger_board) = Some [0x11, 0x22, 0x33, 0x44]"
    by (simp add: trigger_board_eq loop_ir_def enterConfigMode_def emit_def run_simps exit_closed)
  then obtain s' where r: "loop_ir CONFIG_IR_CODE trigger_board = Some s'"
    and h: "hex_codes s' = [0x11, 0x22, 0x33, 0x44]"
    by auto
  have t: "trace trigger_board = []" "hex_codes trigger_board ! 0 = CONFIG_IR_CODE"
    by (simp_all add: trigger_board_eq CONFIG_IR_CODE_def)
  from C4_trigger_enters_config [of trigger_board, THEN conjunct2, rule_format, OF r] r h t
  show ?thesis by simp
qed

subsection \<open>Relay lines and saved states\<close>

lemma setup_codes_frame:
  "relay_states (setup_codes i s) = relay_states s \<and> pins (setup_codes i s) = pins s
   \<and> eeprom (setup_codes i s) = eeprom s \<and> hex_codes (setup_codes i s) = hex_codes s
   \<and> ir_in (setup_codes i s) = ir_in s \<and> button_in (setup_codes i s) = button_in s"
proof (induction i s rule: setup_codes.induct)
  case (1 i s)
  show ?case
  proof (cases "i < NUM_RELAYS")
    case True
    with 1 show ?thesis
      by (subst (1 2 3 4 5 6) setup_codes.simps) (simp add: Let_def emit_def)
  next
    case False
    then show ?thesis by (subst (1 2 3 4 5 6) setup_codes.simps) simp
  qed
qed

text \<open>The first loop of \<open>setup\<close>, started at \<open>i\<close> with the channels below \<open>i\<close> done.\<close>

lemma setup_relays_loaded:
  assumes "length (relay_states s) = NUM_RELAYS"
    and "\<forall>m<i. relay_states s ! m = (eeprom s (RELAY_STATE_ADDR + m) \<noteq> 0)
               \<and> pins s (RELAY_PINS ! m) = relay_level (relay_states s ! m)"
    and "i \<le> NUM_RELAYS"
  shows "length (relay_states (setup_relays i s)) = NUM_RELAYS
       \<and> (\<forall>m<NUM_RELAYS. relay_states (setup_relays i s) ! m = (eeprom s (RELAY_STATE_ADDR + m) \<noteq> 0)
               \<and> pins (setup_relays i s) (RELAY_PINS ! m) = relay_level (relay_states (setup_relays i s) ! m))
       \<and> eeprom (setup_relays i s) = eeprom s \<and> hex_codes (setup_relays i s) = hex_codes s
       \<and> ir_in (setup_relays i s) = ir_in s \<and> button_in (setup_relays i s) = button_in s"
  using assms
proof (induction n \<equiv> "NUM_RELAYS - i" arbitrary: i s)
  case 0
  then have "i = NUM_RELAYS" by simp
  with 0(2,3) show ?case by (subst (1 2 3 4 5 6 7 8) setup_relays.simps) simp
next
  case (Suc n)
  then have True: "i < NUM_RELAYS" by simp
  note 1 = Suc.prems
  show ?case
  proof -
    define b where "b = (eeprom s (RELAY_STATE_ADDR + i) \<noteq> 0)"
    define t where "t =
      s\<lparr>relay_states := (relay_states s)[i := b],
        pins := (pins s)(RELAY_PINS ! i := relay_level b),
        trace := trace s @ [Pin_mode (RELAY_PINS ! i) OUTPUT, Digital_write (RELAY_PINS ! i) (relay_level b),
                           Serial_print ''Relay '', Serial_print_num i, Serial_println (relay_text b)]\<rparr>"
    have il: "i < length (relay_states s)" using True 1(1) by simp
    have step: "setup_relays i s = setup_relays (i + 1) t"
      using True il
      by (subst setup_relays.simps) (simp add: Let_def prims EEPROM_read_def t_def b_def)
    have t1: "length (relay_states t) = NUM_RELAYS" using 1(1) by (simp add: t_def)
    have t2: "\<forall>m<i + 1. relay_states t ! m = (eeprom t (RELAY_STATE_ADDR + m) \<noteq> 0)
               \<and> pins t (RELAY_PINS ! m) = relay_level (relay_states t ! m)"
    proof (intro allI impI)
      fix m assume "m < i + 1"
      then consider "m = i" | "m < i" by linarith
      then show "relay_states t ! m = (eeprom t (RELAY_STATE_ADDR + m) \<noteq> 0)
               \<and> pins t (RELAY_PINS ! m) = relay_level (relay_states t ! m)"
      proof cases
        case 1
        then show ?thesis using il by (simp add: t_def b_def)
      next
        case 2
        then have "RELAY_PINS ! m \<noteq> RELAY_PINS ! i"
          using True by (intro relay_pin_neq) simp_all
        with 2 Suc.prems(2) show ?thesis by (simp add: t_def)
      qed
    qed
    have t3: "i + 1 \<le> NUM_RELAYS" using True by simp
    have e: "eeprom t = eeprom s" "hex_codes t = hex_codes s" "ir_in t = ir_in s" "button_in t = button_in s"
      by (simp_all add: t_def)
    have "length (relay_states (setup_relays (i + 1) t)) = NUM_RELAYS
       \<and> (\<forall>m<NUM_RELAYS. relay_states (setup_relays (i + 1) t) ! m = (eeprom t (RELAY_STATE_ADDR + m) \<noteq> 0)
               \<and> pins (setup_relays (i + 1) t) (RELAY_PINS ! m) = relay_level (relay_states (setup_relays (i + 1) t) ! m))
       \<and> eeprom (setup_relays (i + 1) t) = eeprom t \<and> hex_codes (setup_relays (i + 1) t) = hex_codes t
       \<and> ir_in (setup_relays (i + 1) t) = ir_in t \<and> button_in (setup_relays (i + 1) t) = button_in t"
      using Suc.hyps(2) True by (intro Suc.hyps(1) [OF _ t1 t2 t3]) simp
    then show ?thesis by (simp add: step e)
  qed
qed


lemma setup_fn_loaded:
  assumes "length (relay_states s) = NUM_RELAYS"
  shows "length (relay_states (setup_fn s)) = NUM_RELAYS"
    and "\<forall>m<NUM_RELAYS. relay_states (setup_fn s) ! m = (eeprom s (RELAY_STATE_ADDR + m) \<noteq> 0)
               \<and> pins (setup_fn s) (RELAY_PINS ! m) = relay_level (relay_states (setup_fn s) ! m)"
    and "eeprom (setup_fn s) = eeprom s"
    and "hex_codes (setup_fn s) = EEPROM_get 0 s"
proof -
  define s0 where "s0 = pinMode CONFIG_BUTTON INPUT_PULLUP (pinMode LED_BUILTIN OUTPUT
                          (emit (IrReceiver_begin IR_RECEIVE_PIN) (emit (Serial_begin 115200) s)))"
  define s1 where "s1 = setup_relays 0 s0"
  have e0: "eeprom s0 = eeprom s" "relay_states s0 = relay_states s"
    by (simp_all add: s0_def prims)
  have f: "setup_fn s = setup_codes 0 (s1\<lparr>hex_codes := EEPROM_get 0 s1\<rparr>)"
    by (simp add: setup_fn_def Let_def s0_def s1_def)
  have "length (relay_states s0) = NUM_RELAYS" using assms e0 by simp
  from setup_relays_loaded [OF this, of 0]
  have r: "length (relay_states s1) = NUM_RELAYS"
    "\<forall>m<NUM_RELAYS. relay_states s1 ! m = (eeprom s0 (RELAY_STATE_ADDR + m) \<noteq> 0)
               \<and> pins s1 (RELAY_PINS ! m) = relay_level (relay_states s1 ! m)"
    "eeprom s1 = eeprom s0"
    by (simp_all add: s1_def)
  have g: "EEPROM_get 0 s1 = EEPROM_get 0 s"
    using r(3) e0(1) by (simp add: EEPROM_get_def)
  note c = setup_codes_frame [of 0 "s1\<lparr>hex_codes := EEPROM_get 0 s1\<rparr>"]
  show "length (relay_states (setup_fn s)) = NUM_RELAYS" using r(1) c by (simp add: f)
  show "\<forall>m<NUM_RELAYS. relay_states (setup_fn s) ! m = (eeprom s (RELAY_STATE_ADDR + m) \<noteq> 0)
               \<and> pins (setup_fn s) (RELAY_PINS ! m) = relay_level (relay_states (setup_fn s) ! m)"
    using r(2) c e0(1) by (simp add: f)
  show "eeprom (setup_fn s) = eeprom s" using r(3) c e0(1) by (simp add: f)
  show "hex_codes (setup_fn s) = EEPROM_get 0 s" using c g by (simp add: f)
qed

lemma toggle_active_low:
  assumes "active_low s" "j < NUM_RELAYS" "length (relay_states s) = NUM_RELAYS"
  shows "active_low (toggleRelay j s)"
  unfolding active_low_def
proof (intro allI impI)
  fix i assume i: "i < NUM_RELAYS"
  note e = toggle_effect [OF assms(2,3)]
  show "pins (toggleRelay j s) (RELAY_PINS ! i) = relay_level (relay_states (toggleRelay j s) ! i)"
  proof (cases "i = j")
    case True
    then show ?thesis using e(1,6) by simp
  next
    case False
    with e(2) i assms(1) show ?thesis by (simp add: active_low_def)
  qed
qed

lemma active_low_config:
  assumes "relay_states t = relay_states s" "\<forall>p. p \<noteq> LED_BUILTIN \<longrightarrow> pins t p = pins s p" "active_low s"
  shows "active_low t"
proof -
  have "RELAY_PINS ! i \<noteq> LED_BUILTIN" if "i < NUM_RELAYS" for i
    using relay_pin_in [OF that] LED_not_relay by auto
  with assms show ?thesis by (simp add: active_low_def)
qed

lemma loop_button_cases:
  assumes "loop_button s = Some t"
  shows "\<exists>u. relay_states u = relay_states s \<and> pins u = pins s
             \<and> (t = u \<or> enterConfigMode u = Some t)"
proof (cases "button_in s")
  case Nil
  with assms have "t = s" by (simp add: loop_button_def digitalRead_button_def)
  then show ?thesis by blast
next
  case (Cons l ls)
  show ?thesis
  proof (cases "l = LOW")
    case False
    with Cons assms have "t = s\<lparr>button_in := ls\<rparr>"
      by (simp add: loop_button_def digitalRead_button_def)
    then show ?thesis by (intro exI [of _ "s\<lparr>button_in := ls\<rparr>"]) simp
  next
    case True
    define u where "u = delay 50 (s\<lparr>button_in := ls\<rparr>)"
    have u: "relay_states u = relay_states s" "pins u = pins s" "button_in u = ls"
      by (simp_all add: u_def prims)
    have lb: "loop_button s =
        (case digitalRead_button u of (b, v) \<Rightarrow> if b = LOW then enterConfigMode v else Some v)"
      using Cons True by (simp add: loop_button_def digitalRead_button_def Let_def u_def)
    show ?thesis
    proof (cases ls)
      case Nil
      with lb u(3) assms have "t = u" by (simp add: digitalRead_button_def)
      with u show ?thesis by blast
    next
      case (Cons l2 ls2)
      let ?v = "u\<lparr>button_in := ls2\<rparr>"
      have v: "relay_states ?v = relay_states s" "pins ?v = pins s"
        using u by simp_all
      from lb u(3) Cons assms have "t = ?v \<or> enterConfigMode ?v = Some t"
        by (auto simp add: digitalRead_button_def split: if_splits)
      with v show ?thesis by blast
    qed
  qed
qed

lemma active_low_same:
  "relay_states t = relay_states s \<Longrightarrow> pins t = pins s \<Longrightarrow> active_low t = active_low s"
  by (simp add: active_low_def)

lemma loop_button_active_low:
  assumes "loop_button s = Some t" "active_low s"
  shows "active_low t \<and> relay_states t = relay_states s"
proof -
  from loop_button_cases [OF assms(1)] obtain u
    where u: "relay_states u = relay_states s" "pins u = pins s"
      and c: "t = u \<or> enterConfigMode u = Some t"
    by blast
  have au: "active_low u" using active_low_same [OF u] assms(2) by simp
  from c show ?thesis
  proof
    assume "t = u"
    with au u show ?thesis by simp
  next
    assume e: "enterConfigMode u = Some t"
    from enterConfigMode_frame(1,2) [OF e] active_low_config [OF _ _ au, of t] u
    show ?thesis by simp
  qed
qed

lemma loop_ir_active_low:
  assumes "loop_ir c s = Some t" "active_low s" "length (relay_states s) = NUM_RELAYS"
  shows "active_low t \<and> length (relay_states t) = NUM_RELAYS"
proof -
  let ?s = "emit (Serial_println_hex c) (emit (Serial_print ''IR Received: '') s)"
  have a: "active_low ?s" "length (relay_states ?s) = NUM_RELAYS"
    using assms(2,3) by (simp_all add: active_low_def emit_def)
  have r: "active_low (emit e u) = active_low u" "relay_states (emit e u) = relay_states u" for e u
    by (simp_all add: active_low_def emit_def)
  show ?thesis
  proof (cases "c = CONFIG_IR_CODE")
    case True
    with assms(1) obtain u where u: "enterConfigMode (emit (Serial_println ''IR Config Trigger'') ?s) = Some u"
      and t: "t = emit IrReceiver_resume u"
      by (auto simp add: loop_ir_def Let_def)
    from enterConfigMode_frame(1,2) [OF u] a
    have "active_low u \<and> relay_states u = relay_states s"
      using active_low_config [of u "emit (Serial_println ''IR Config Trigger'') ?s"] by (simp add: r)
    with assms(3) show ?thesis by (simp add: t r)
  next
    case False
    with assms(1) have t: "t = emit IrReceiver_resume (loop_scan 0 c ?s)"
      by (auto simp add: loop_ir_def Let_def)
    from scan_cases [of 0 c ?s] show ?thesis
    proof
      assume "loop_scan 0 c ?s = ?s"
      with a show ?thesis by (simp add: t r)
    next
      assume "\<exists>j<NUM_RELAYS. loop_scan 0 c ?s = toggleRelay j ?s"
      then obtain j where j: "j < NUM_RELAYS" "loop_scan 0 c ?s = toggleRelay j ?s" by blast
      from toggle_active_low [OF a(1) j(1) a(2)] toggle_effect(8) [OF j(1) a(2)]
      show ?thesis by (simp add: t r j(2))
    qed
  qed
qed

lemma loop_active_low:
  assumes "loop s = Some t" "active_low s" "length (relay_states s) = NUM_RELAYS"
  shows "active_low t \<and> length (relay_states t) = NUM_RELAYS"
proof -
  from assms(1) obtain u where u: "loop_button s = Some u"
    by (auto simp add: loop_def split: option.splits)
  from loop_button_active_low [OF u assms(2)] assms(3)
  have a: "active_low u" "length (relay_states u) = NUM_RELAYS" by simp_all
  have k: "active_low (u\<lparr>ir_in := r\<rparr>)" "length (relay_states (u\<lparr>ir_in := r\<rparr>)) = NUM_RELAYS" for r
    using a by (simp_all add: active_low_def)
  from assms(1) u show ?thesis
    using a k loop_ir_active_low [OF _ k]
    by (auto simp add: loop_def IrReceiver_decode_def split: list.splits option.splits)
qed

lemma list4_eq:
  assumes "length xs = 4" "xs ! 0 = a" "xs ! 1 = b" "xs ! 2 = c" "xs ! 3 = d"
  shows "xs = [a, b, c, d]"
  using assms
  by (simp add: list_eq_iff_nth_eq nth_Cons' less_Suc_eq eval_nat_numeral) 

lemma saved_board_eq:
  "saved_board = \<lparr>hex_codes = [0, 0, 0, 0], relay_states = [False, False, False, False],
      eeprom = (\<lambda>a. 0)(16 := 1, 18 := 1), pins = \<lambda>p. HIGH, ir_in = [], button_in = [], trace = []\<rparr>"
  by (simp add: saved_board_def power_on_def NUM_RELAYS_eq replicate_4)

lemma erased_board_eq:
  "erased_board = \<lparr>hex_codes = [0, 0, 0, 0], relay_states = [False, False, False, False],
      eeprom = \<lambda>a. 0xFF, pins = \<lambda>p. LOW, ir_in = [], button_in = [], trace = []\<rparr>"
  by (simp add: erased_board_def power_on_def NUM_RELAYS_eq replicate_4)

text \<open>
  C9. When the saved state bytes are 1, 0, 1, 0, \<open>setup\<close> makes the states of the
  channels on, off, on, off and drives the lines of channels 0 and 2 (pins 8 and 10) to
  LOW, the active level, and those of channels 1 and 3 (pins 9 and 11) to HIGH. In
  general the line of every channel is at the inverse of its state after \<open>setup\<close>, and
  \<open>toggleRelay\<close> and a pass of \<open>loop\<close> keep it so.
\<close>

theorem C9_active_low_lines:
  assumes "length (relay_states s) = NUM_RELAYS"
  shows "(eeprom s 16 = 1 \<and> eeprom s 17 = 0 \<and> eeprom s 18 = 1 \<and> eeprom s 19 = 0 \<longrightarrow>
            relay_states (setup_fn s) = [True, False, True, False]
            \<and> pins (setup_fn s) 8 = LOW \<and> pins (setup_fn s) 9 = HIGH
            \<and> pins (setup_fn s) 10 = LOW \<and> pins (setup_fn s) 11 = HIGH)
       \<and> active_low (setup_fn s)
       \<and> (\<forall>i<NUM_RELAYS. active_low s \<longrightarrow> active_low (toggleRelay i s))
       \<and> (\<forall>s'. active_low s \<and> loop s = Some s' \<longrightarrow> active_low s')"
proof -
  note l = setup_fn_loaded [OF assms]
  have al: "active_low (setup_fn s)"
    using l(2) by (simp add: active_low_def)
  have sc: "relay_states (setup_fn s) = [True, False, True, False]
            \<and> pins (setup_fn s) 8 = LOW \<and> pins (setup_fn s) 9 = HIGH
            \<and> pins (setup_fn s) 10 = LOW \<and> pins (setup_fn s) 11 = HIGH"
    if e: "eeprom s 16 = 1" "eeprom s 17 = 0" "eeprom s 18 = 1" "eeprom s 19 = 0"
  proof -
    from l(2) [rule_format, of 0] l(2) [rule_format, of 1] l(2) [rule_format, of 2]
      l(2) [rule_format, of 3] e
    have r: "relay_states (setup_fn s) ! 0 = True" "relay_states (setup_fn s) ! 1 = False"
      "relay_states (setup_fn s) ! 2 = True" "relay_states (setup_fn s) ! 3 = False"
      and p: "pins (setup_fn s) 8 = relay_level (relay_states (setup_fn s) ! 0)"
        "pins (setup_fn s) 9 = relay_level (relay_states (setup_fn s) ! 1)"
        "pins (setup_fn s) 10 = relay_level (relay_states (setup_fn s) ! 2)"
        "pins (setup_fn s) 11 = relay_level (relay_states (setup_fn s) ! 3)"
      by (simp_all add: NUM_RELAYS_eq RELAY_STATE_ADDR_def RELAY_PINS_def)
    have "length (relay_states (setup_fn s)) = 4" using l(1) by (simp add: NUM_RELAYS_eq)
    from list4_eq [OF this r] p r show ?thesis by (simp add: relay_level_def)
  qed
  from sc al toggle_active_low [OF _ _ assms] loop_active_low [OF _ _ assms]
  show ?thesis by blast
qed

theorem C9_active_low_lines_witness:
  "length (relay_states saved_board) = NUM_RELAYS
   \<and> eeprom saved_board 16 = 1 \<and> eeprom saved_board 17 = 0
   \<and> eeprom saved_board 18 = 1 \<and> eeprom saved_board 19 = 0
   \<and> relay_states (setup_fn saved_board) = [True, False, True, False]
   \<and> pins (setup_fn saved_board) 8 = LOW \<and> pins (setup_fn saved_board) 9 = HIGH
   \<and> pins (setup_fn saved_board) 10 = LOW \<and> pins (setup_fn saved_board) 11 = HIGH
   \<and> active_low (setup_fn saved_board)"
proof -
  have h: "length (relay_states saved_board) = NUM_RELAYS"
    by (simp add: saved_board_eq NUM_RELAYS_eq)
  have e: "eeprom saved_board 16 = 1 \<and> eeprom saved_board 17 = 0
   \<and> eeprom saved_board 18 = 1 \<and> eeprom saved_board 19 = 0"
    by (simp add: saved_board_eq)
  from C9_active_low_lines [OF h] e h show ?thesis by blast
qed

text \<open>
  C5, as the code has it. For a channel \<open>i\<close> below N, two calls of \<open>toggleRelay i\<close> in
  succession leave the states of all channels as they were, and leave in the saved byte
  of channel \<open>i\<close> the 0 or 1 that stands for its state. So the saved byte is the one
  before the first call whenever that byte was the 0 or 1 of the state, and then the
  whole EEPROM is as before.
\<close>

theorem C5_double_toggle:
  assumes "i < NUM_RELAYS" and "length (relay_states s) = NUM_RELAYS"
  shows "relay_states (toggleRelay i (toggleRelay i s)) = relay_states s
       \<and> eeprom (toggleRelay i (toggleRelay i s)) (RELAY_STATE_ADDR + i) = of_bool (relay_states s ! i)
       \<and> pins (toggleRelay i (toggleRelay i s)) (RELAY_PINS ! i) = relay_level (relay_states s ! i)
       \<and> (eeprom s (RELAY_STATE_ADDR + i) = of_bool (relay_states s ! i) \<longrightarrow>
            eeprom (toggleRelay i (toggleRelay i s)) = eeprom s)"
proof -
  from assms have l: "i < length (relay_states s)" by simp
  have l2: "i < length (relay_states (toggleRelay i s))"
    using l by (simp add: toggle_closed [OF l])
  have "eeprom s (RELAY_STATE_ADDR + i) = of_bool (relay_states s ! i) \<Longrightarrow>
          (eeprom s)(RELAY_STATE_ADDR + i := of_bool (relay_states s ! i)) = eeprom s"
    by (simp add: fun_upd_idem)
  then show ?thesis
    using l
    apply (simp add: toggle_closed [OF l2])
    apply (simp add: toggle_closed [OF l])
    apply (auto simp add: list_update_same_conv fun_upd_idem)
    done
qed

theorem C5_double_toggle_witness:
  "(2 :: nat) < NUM_RELAYS \<and> length (relay_states saved_board) = NUM_RELAYS
   \<and> relay_states (toggleRelay 2 (toggleRelay 2 saved_board)) = [False, False, False, False]
   \<and> eeprom (toggleRelay 2 (toggleRelay 2 saved_board)) (RELAY_STATE_ADDR + 2) = 0
   \<and> eeprom (toggleRelay 2 saved_board) (RELAY_STATE_ADDR + 2) = 1"
proof -
  have h: "(2 :: nat) < NUM_RELAYS" "length (relay_states saved_board) = NUM_RELAYS"
    by (simp_all add: saved_board_eq NUM_RELAYS_eq)
  have m: "eeprom (toggleRelay 2 saved_board) (RELAY_STATE_ADDR + 2) = 1"
    by (simp add: toggle_closed saved_board_eq)
  from C5_double_toggle [OF h] h m show ?thesis
    by (simp add: saved_board_eq)
qed

theorem C5_erased_byte_counterexample:
  "(0 :: nat) < NUM_RELAYS
   \<and> relay_states (setup_fn erased_board) ! 0 = True
   \<and> eeprom (setup_fn erased_board) (RELAY_STATE_ADDR + 0) = 0xFF
   \<and> relay_states (toggleRelay 0 (toggleRelay 0 (setup_fn erased_board))) ! 0 = True
   \<and> eeprom (toggleRelay 0 (toggleRelay 0 (setup_fn erased_board))) (RELAY_STATE_ADDR + 0) = 1
   \<and> eeprom (toggleRelay 0 (toggleRelay 0 (setup_fn erased_board))) (RELAY_STATE_ADDR + 0)
       \<noteq> eeprom (setup_fn erased_board) (RELAY_STATE_ADDR + 0)"
proof -
  have h: "length (relay_states erased_board) = NUM_RELAYS"
    by (simp add: erased_board_eq NUM_RELAYS_eq)
  note l = setup_fn_loaded [OF h]
  have z: "(0 :: nat) < NUM_RELAYS" by (simp add: NUM_RELAYS_eq)
  have r: "relay_states (setup_fn erased_board) ! 0 = True"
    using l(2) [rule_format, OF z] by (simp add: erased_board_eq)
  have e: "eeprom (setup_fn erased_board) (RELAY_STATE_ADDR + 0) = 0xFF"
    unfolding l(3) by (simp add: erased_board_eq)
  have l1: "0 < length (relay_states (setup_fn erased_board))"
    using l(1) z by simp
  have l2: "0 < length (relay_states (toggleRelay 0 (setup_fn erased_board)))"
    using l1 by (simp add: toggle_closed [OF l1])
  have t: "relay_states (toggleRelay 0 (toggleRelay 0 (setup_fn erased_board))) ! 0 = True"
    "eeprom (toggleRelay 0 (toggleRelay 0 (setup_fn erased_board))) (RELAY_STATE_ADDR + 0) = 1"
    using l1 r by (simp_all add: toggle_closed [OF l2]) (simp_all add: toggle_closed [OF l1])
  from z r e t show ?thesis by simp
qed

end
